theory Spec2Isabelle
  imports Complex_Main "HOL-Library.Sublist"
begin

section \<open>JavaScript numbers\<close>

text \<open>
  A JavaScript number is an IEEE double. The model keeps the three kinds of value the
  editor's guards distinguish (finite, the two infinities, NaN) and computes on finite
  values exactly, over the rationals: rounding, overflow of a finite result and the sign
  of zero are not modelled. Every comparison with NaN is false, and NaN is absorbing.
\<close>

datatype number = Fin rat | PInf | NInf | NaN

fun Number_isNaN :: "number \<Rightarrow> bool" where
  "Number_isNaN NaN = True"
| "Number_isNaN _ = False"

fun Number_isFinite :: "number \<Rightarrow> bool" where
  "Number_isFinite (Fin _) = True"
| "Number_isFinite _ = False"

text \<open>Truthiness of a number in \<^verbatim>\<open>if (cam.fov)\<close>: zero and NaN are falsy.\<close>

fun truthy :: "number \<Rightarrow> bool" where
  "truthy (Fin a) = (a \<noteq> 0)"
| "truthy NaN = False"
| "truthy _ = True"

text \<open>The relation \<^verbatim>\<open>a <= b\<close> and \<^verbatim>\<open>a < b\<close> of JavaScript.\<close>

fun num_le :: "number \<Rightarrow> number \<Rightarrow> bool" where
  "num_le NaN _ = False"
| "num_le _ NaN = False"
| "num_le NInf _ = True"
| "num_le _ PInf = True"
| "num_le (Fin a) (Fin b) = (a \<le> b)"
| "num_le _ _ = False"

fun num_less :: "number \<Rightarrow> number \<Rightarrow> bool" where
  "num_less NaN _ = False"
| "num_less _ NaN = False"
| "num_less PInf _ = False"
| "num_less _ NInf = False"
| "num_less (Fin a) (Fin b) = (a < b)"
| "num_less _ _ = True"

fun Math_max :: "number \<Rightarrow> number \<Rightarrow> number" where
  "Math_max NaN _ = NaN"
| "Math_max _ NaN = NaN"
| "Math_max PInf _ = PInf"
| "Math_max _ PInf = PInf"
| "Math_max NInf b = b"
| "Math_max a NInf = a"
| "Math_max (Fin a) (Fin b) = Fin (max a b)"

fun Math_min :: "number \<Rightarrow> number \<Rightarrow> number" where
  "Math_min NaN _ = NaN"
| "Math_min _ NaN = NaN"
| "Math_min NInf _ = NInf"
| "Math_min _ NInf = NInf"
| "Math_min PInf b = b"
| "Math_min a PInf = a"
| "Math_min (Fin a) (Fin b) = Fin (min a b)"

text \<open>\<^verbatim>\<open>Math.round\<close>: the nearest integer, halves rounded up.\<close>

fun Math_round :: "number \<Rightarrow> number" where
  "Math_round (Fin a) = Fin (of_int \<lfloor>a + 1 / 2\<rfloor>)"
| "Math_round v = v"

fun js_neg :: "number \<Rightarrow> number" where
  "js_neg (Fin a) = Fin (- a)"
| "js_neg PInf = NInf"
| "js_neg NInf = PInf"
| "js_neg NaN = NaN"

fun js_add :: "number \<Rightarrow> number \<Rightarrow> number" where
  "js_add NaN _ = NaN"
| "js_add _ NaN = NaN"
| "js_add PInf NInf = NaN"
| "js_add NInf PInf = NaN"
| "js_add PInf _ = PInf"
| "js_add _ PInf = PInf"
| "js_add NInf _ = NInf"
| "js_add _ NInf = NInf"
| "js_add (Fin a) (Fin b) = Fin (a + b)"

definition js_sub :: "number \<Rightarrow> number \<Rightarrow> number" where
  "js_sub a b = js_add a (js_neg b)"

fun js_mul :: "number \<Rightarrow> number \<Rightarrow> number" where
  "js_mul NaN _ = NaN"
| "js_mul _ NaN = NaN"
| "js_mul (Fin a) (Fin b) = Fin (a * b)"
| "js_mul (Fin a) PInf = (if a = 0 then NaN else if 0 < a then PInf else NInf)"
| "js_mul (Fin a) NInf = (if a = 0 then NaN else if 0 < a then NInf else PInf)"
| "js_mul PInf (Fin b) = (if b = 0 then NaN else if 0 < b then PInf else NInf)"
| "js_mul NInf (Fin b) = (if b = 0 then NaN else if 0 < b then NInf else PInf)"
| "js_mul PInf PInf = PInf"
| "js_mul NInf NInf = PInf"
| "js_mul PInf NInf = NInf"
| "js_mul NInf PInf = NInf"

text \<open>Division: a finite nonzero value over zero is an infinity, zero over zero is NaN.\<close>

fun js_div :: "number \<Rightarrow> number \<Rightarrow> number" where
  "js_div NaN _ = NaN"
| "js_div _ NaN = NaN"
| "js_div (Fin a) (Fin b) =
     (if b \<noteq> 0 then Fin (a / b) else if a = 0 then NaN else if 0 < a then PInf else NInf)"
| "js_div (Fin a) _ = Fin 0"
| "js_div PInf (Fin b) = (if 0 \<le> b then PInf else NInf)"
| "js_div NInf (Fin b) = (if 0 \<le> b then NInf else PInf)"
| "js_div _ _ = NaN"

section \<open>Data model\<close>

text \<open>\<^verbatim>\<open>THREE.Vector3\<close> and the plain \<^verbatim>\<open>{x, y, z}\<close> objects.\<close>

record vec3 =
  vx :: number
  vy :: number
  vz :: number

text \<open>\<^verbatim>\<open>THREE.Color\<close> and the plain \<^verbatim>\<open>{r, g, b}\<close> objects.\<close>

record rgb =
  cr :: number
  cg :: number
  cb :: number

definition vec :: "rat \<Rightarrow> rat \<Rightarrow> rat \<Rightarrow> vec3" where
  "vec a b c = \<lparr>vx = Fin a, vy = Fin b, vz = Fin c\<rparr>"

definition col :: "rat \<Rightarrow> rat \<Rightarrow> rat \<Rightarrow> rgb" where
  "col a b c = \<lparr>cr = Fin a, cg = Fin b, cb = Fin c\<rparr>"

text \<open>
  The geometry of a visual node with the parameters the editor reads back:
  \<^verbatim>\<open>SphereGeometry(radius, ..)\<close>, \<^verbatim>\<open>BoxGeometry(width, height, depth)\<close>, and none for
  the \<^verbatim>\<open>THREE.Group\<close> of a light.
\<close>

datatype geometry = SphereGeometry number | BoxGeometry number number number | NoGeometry

text \<open>
  \<^verbatim>\<open>geometry.parameters.width\<close> and its siblings; on a geometry without the parameter
  the read is \<^verbatim>\<open>undefined\<close>, which a division turns into NaN.
\<close>

fun parameters_width :: "geometry \<Rightarrow> number" where
  "parameters_width (BoxGeometry w h d) = w"
| "parameters_width _ = NaN"

fun parameters_height :: "geometry \<Rightarrow> number" where
  "parameters_height (BoxGeometry w h d) = h"
| "parameters_height _ = NaN"

fun parameters_depth :: "geometry \<Rightarrow> number" where
  "parameters_depth (BoxGeometry w h d) = d"
| "parameters_depth _ = NaN"

text \<open>
  The visual handle \<^verbatim>\<open>entity.mesh\<close>: a \<^verbatim>\<open>THREE.Mesh\<close> (sphere, cube) or the
  \<^verbatim>\<open>THREE.Group\<close> of a light. \<open>material\<close> is \<^verbatim>\<open>mesh.material.color\<close> (absent on a
  group). The marker and the point light inside a group stay at the group's origin.
\<close>

record mesh =
  position :: vec3
  scale :: vec3
  geometry :: geometry
  material :: "rgb option"

text \<open>The kind-specific canonical record \<^verbatim>\<open>entity.data\<close>.\<close>

datatype entity_data =
    SphereData vec3 number rgb
  | CubeData vec3 vec3 rgb
  | LightData vec3 rgb vec3

datatype kind = Sphere | Cube | Light

text \<open>
  An id is the template string \<^verbatim>\<open>`${prefix}-${idCounter}`\<close>, kept as its two parts.
\<close>

type_synonym entity_id = "string \<times> nat"

text \<open>
  An entity. \<open>light\<close> is \<^verbatim>\<open>entity.light.color\<close>, present on lights only. The field
  \<^verbatim>\<open>kind\<close> of the source is the constructor of \<open>data\<close>.
\<close>

record entity =
  eid :: entity_id
  mesh :: mesh
  light :: "rgb option"
  data :: entity_data

fun kind_of :: "entity_data \<Rightarrow> kind" where
  "kind_of (SphereData c r k) = Sphere"
| "kind_of (CubeData c s k) = Cube"
| "kind_of (LightData p i d) = Light"

definition kind :: "entity \<Rightarrow> kind" where
  "kind e = kind_of (data e)"

text \<open>The render camera settings, \<^verbatim>\<open>cameraState\<close>.\<close>

record camera_state =
  cam_position :: vec3
  cam_lookAt :: vec3
  cam_up :: vec3
  cam_fov :: number
  cam_width :: number
  cam_height :: number

subsection \<open>Scene documents\<close>

text \<open>
  A parsed scene document. A JSON array of three numbers is a triple; a key that may be
  absent is an option, \<open>None\<close> standing for \<^verbatim>\<open>undefined\<close>. The model covers documents
  whose present fields have the JSON types of the scene format (numbers where numbers
  are read, arrays of at least three numbers where vectors are read); an object record
  is classified by its \<^verbatim>\<open>type\<close> tag.
\<close>

type_synonym arr3 = "number \<times> number \<times> number"

record camera_doc =
  j_position :: "arr3 option"
  j_look_at :: "arr3 option"
  j_up :: "arr3 option"
  j_fov :: "number option"
  j_width :: "number option"
  j_height :: "number option"

datatype obj_doc =
    SphereDoc "arr3 option" number "arr3 option"
  | CubeDoc "arr3 option" "arr3 option" "arr3 option"
  | OtherObj string

datatype light_doc =
    PointDoc "arr3 option" "arr3 option" "arr3 option"
  | OtherLight string

record scene_doc =
  j_camera :: "camera_doc option"
  j_objects :: "obj_doc list option"
  j_lights :: "light_doc list option"

subsection \<open>The editor state\<close>

datatype resource = Geometry | Material

text \<open>
  The module's variables and the parts of the page and of the three.js scene that the
  functions write: \<open>objectList\<close> holds the option values of the list box (its
  current value, the visibility of the editor panel and the rendered frame are not
  modelled), \<open>scene_children\<close> the entities whose visual node is in the scene,
  \<open>transform_object\<close> the node the gizmo is attached to, \<open>disposed\<close> one entry for
  every \<^verbatim>\<open>dispose()\<close> call, in order, and \<open>sceneJson\<close> the document shown in the
  text area.

  \<^verbatim>\<open>selectedEntity\<close> refers to an entity object; the model keeps the id and reads the
  object from \<open>entities\<close>. \<^verbatim>\<open>idCounter\<close> is a natural number: the loss of precision
  of a double above \<open>2^53\<close> is not modelled.
\<close>

record state =
  entities :: "entity list"
  selectedEntity :: "entity_id option"
  idCounter :: nat
  cameraState :: camera_state
  objectList :: "entity_id list"
  scene_children :: "entity_id list"
  transform_object :: "entity_id option"
  disposed :: "(entity_id \<times> resource) list"
  sceneJson :: scene_doc

text \<open>
  A statement list that may throw: \<open>Threw\<close> carries the state at the throw, which the
  \<^verbatim>\<open>catch\<close> of the caller leaves as it is.
\<close>

datatype 'a completion = Normal 'a | Threw 'a

text \<open>What \<^verbatim>\<open>JSON.parse\<close> returned: \<^verbatim>\<open>null\<close>, or a value whose keys are read.\<close>

datatype json = JNull | JObject scene_doc

datatype axis = X | Y | Z

section \<open>Encoding: \<^verbatim>\<open>buildSceneJson\<close>\<close>

definition toArray :: "vec3 \<Rightarrow> arr3" where
  "toArray vector = (vx vector, vy vector, vz vector)"

definition colorToArray :: "rgb \<Rightarrow> arr3" where
  "colorToArray color = (cr color, cg color, cb color)"

definition clamp01 :: "number \<Rightarrow> number" where
  "clamp01 v = Math_max (Fin 0) (Math_min (Fin 1) v)"

text \<open>What the loop of \<^verbatim>\<open>buildSceneJson\<close> pushes to \<^verbatim>\<open>objects\<close> for one entity.\<close>

fun objects_of :: "entity_data \<Rightarrow> obj_doc list" where
  "objects_of (SphereData center radius color) =
     [SphereDoc (Some (toArray center)) radius (Some (colorToArray color))]"
| "objects_of (CubeData center sz color) =
     (let half = \<lparr>vx = js_div (vx sz) (Fin 2), vy = js_div (vy sz) (Fin 2),
                   vz = js_div (vz sz) (Fin 2)\<rparr>;
          mn = (js_sub (vx center) (vx half), js_sub (vy center) (vy half),
                js_sub (vz center) (vz half));
          mx = (js_add (vx center) (vx half), js_add (vy center) (vy half),
                js_add (vz center) (vz half))
      in [CubeDoc (Some mn) (Some mx) (Some (colorToArray color))])"
| "objects_of (LightData p i d) = []"

text \<open>And to \<^verbatim>\<open>lights\<close>.\<close>

fun lights_of :: "entity_data \<Rightarrow> light_doc list" where
  "lights_of (LightData p i d) =
     [PointDoc (Some (toArray p)) (Some (cr i, cg i, cb i)) (Some (vx d, vy d, vz d))]"
| "lights_of _ = []"

definition buildSceneJson :: "state \<Rightarrow> scene_doc" where
  "buildSceneJson st =
     (let cs = cameraState st in
      \<lparr>j_camera = Some
         \<lparr>j_position = Some (vx (cam_position cs), vy (cam_position cs), vz (cam_position cs)),
          j_look_at = Some (vx (cam_lookAt cs), vy (cam_lookAt cs), vz (cam_lookAt cs)),
          j_up = Some (vx (cam_up cs), vy (cam_up cs), vz (cam_up cs)),
          j_fov = Some (cam_fov cs),
          j_width = Some (cam_width cs),
          j_height = Some (cam_height cs)\<rparr>,
       j_objects = Some (concat (map (\<lambda>e. objects_of (data e)) (entities st))),
       j_lights = Some (concat (map (\<lambda>e. lights_of (data e)) (entities st)))\<rparr>)"

definition refreshSceneJson :: "state \<Rightarrow> state" where
  "refreshSceneJson st = st\<lparr>sceneJson := buildSceneJson st\<rparr>"

section \<open>Entity registry\<close>

definition generateId :: "string \<Rightarrow> state \<Rightarrow> entity_id \<times> state" where
  "generateId pfx st =
     (let st' = st\<lparr>idCounter := idCounter st + 1\<rparr> in ((pfx, idCounter st'), st'))"

text \<open>
  \<^verbatim>\<open>new THREE.Color(hex)\<close> for a hexadecimal number or a \<^verbatim>\<open>#rrggbb\<close> string of that
  value: each byte over 255 (three.js \<^verbatim>\<open>setHex\<close>, without a colour space conversion).
\<close>

definition THREE_Color :: "int \<Rightarrow> rgb" where
  "THREE_Color hex =
     \<lparr>cr = Fin (of_int ((hex div 65536) mod 256) / 255),
      cg = Fin (of_int ((hex div 256) mod 256) / 255),
      cb = Fin (of_int (hex mod 256) / 255)\<rparr>"

text \<open>
  \<^verbatim>\<open>hexToColor\<close>, on the value \<^verbatim>\<open>parseInt(hex.slice(1), 16)\<close> of the colour field's
  string; \<^verbatim>\<open>(value >> 16) & 255\<close> is written with \<open>div\<close> and \<open>mod\<close>.
\<close>

definition hexToColor :: "int \<Rightarrow> rgb" where
  "hexToColor v =
     \<lparr>cr = js_div (Fin (of_int ((v div 65536) mod 256))) (Fin 255),
      cg = js_div (Fin (of_int ((v div 256) mod 256))) (Fin 255),
      cb = js_div (Fin (of_int (v mod 256))) (Fin 255)\<rparr>"

definition addListItem :: "entity \<Rightarrow> state \<Rightarrow> state" where
  "addListItem e st = st\<lparr>objectList := objectList st @ [eid e]\<rparr>"

text \<open>\<^verbatim>\<open>entities.find((e) => e.id === id)\<close>.\<close>

definition find_entity :: "entity_id \<Rightarrow> state \<Rightarrow> entity option" where
  "find_entity i st = find (\<lambda>e. eid e = i) (entities st)"

text \<open>The argument of \<^verbatim>\<open>selectEntity\<close> is \<^verbatim>\<open>null\<close> (\<open>None\<close>) or a string.\<close>

definition selectEntity :: "entity_id option \<Rightarrow> state \<Rightarrow> state" where
  "selectEntity i st =
     (case (case i of None \<Rightarrow> None | Some j \<Rightarrow> find_entity j st) of
        None \<Rightarrow> st\<lparr>selectedEntity := None, transform_object := None\<rparr>
      | Some e \<Rightarrow> st\<lparr>selectedEntity := Some (eid e), transform_object := Some (eid e)\<rparr>)"

text \<open>The object \<^verbatim>\<open>selectedEntity\<close> refers to.\<close>

definition selected_object :: "state \<Rightarrow> entity option" where
  "selected_object st =
     (case selectedEntity st of None \<Rightarrow> None | Some i \<Rightarrow> find_entity i st)"

definition createSphereEntity :: "state \<Rightarrow> state" where
  "createSphereEntity st =
     (let radius = Fin 1;
          m = \<lparr>position = \<lparr>vx = Fin 0, vy = radius, vz = Fin 0\<rparr>, scale = vec 1 1 1,
               geometry = SphereGeometry radius, material = Some (THREE_Color 0x88ccff)\<rparr>;
          (i, st1) = generateId ''sphere'' st;
          e = \<lparr>eid = i, mesh = m, light = None,
               data = SphereData (position m) radius (col 0.533 0.8 1.0)\<rparr>;
          st2 = st1\<lparr>scene_children := scene_children st1 @ [i],
                    entities := entities st1 @ [e]\<rparr>
      in refreshSceneJson (selectEntity (Some (eid e)) (addListItem e st2)))"

definition createCubeEntity :: "state \<Rightarrow> state" where
  "createCubeEntity st =
     (let sz = Fin 1.5;
          m = \<lparr>position = \<lparr>vx = Fin 0, vy = js_div sz (Fin 2), vz = Fin 0\<rparr>, scale = vec 1 1 1,
               geometry = BoxGeometry sz sz sz, material = Some (THREE_Color 0xffc164)\<rparr>;
          (i, st1) = generateId ''cube'' st;
          e = \<lparr>eid = i, mesh = m, light = None,
               data = CubeData (position m) \<lparr>vx = sz, vy = sz, vz = sz\<rparr> (col 1.0 0.761 0.392)\<rparr>;
          st2 = st1\<lparr>scene_children := scene_children st1 @ [i],
                    entities := entities st1 @ [e]\<rparr>
      in refreshSceneJson (selectEntity (Some (eid e)) (addListItem e st2)))"

definition createLightEntity :: "state \<Rightarrow> state" where
  "createLightEntity st =
     (let m = \<lparr>position = vec 3 5 3, scale = vec 1 1 1,
               geometry = NoGeometry, material = None\<rparr>;
          (i, st1) = generateId ''light'' st;
          e = \<lparr>eid = i, mesh = m, light = Some (THREE_Color 0xffffff),
               data = LightData (position m) (col 1.0 1.0 1.0) (vec 0.0 (- 1.0) 0.0)\<rparr>;
          st2 = st1\<lparr>scene_children := scene_children st1 @ [i],
                    entities := entities st1 @ [e]\<rparr>
      in refreshSceneJson (selectEntity (Some (eid e)) (addListItem e st2)))"

text \<open>
  \<^verbatim>\<open>disposeObject(entity.mesh)\<close>: the traversal reaches one geometry and one material (of
  the mesh itself, or of the marker inside a light's group); no node has a
  \<^verbatim>\<open>texture\<close> field. Each \<^verbatim>\<open>dispose()\<close> call is logged.
\<close>

definition disposeObject :: "entity \<Rightarrow> state \<Rightarrow> state" where
  "disposeObject e st = st\<lparr>disposed := disposed st @ [(eid e, Geometry), (eid e, Material)]\<rparr>"

text \<open>
  \<^verbatim>\<open>entities.indexOf(entity)\<close> and \<^verbatim>\<open>splice(index, 1)\<close>: the first position holding
  the object is removed. Two entity objects are the same object when their ids agree.
\<close>

fun splice_entity :: "entity_id \<Rightarrow> entity list \<Rightarrow> entity list" where
  "splice_entity i [] = []"
| "splice_entity i (e # es) = (if eid e = i then es else e # splice_entity i es)"

definition removeEntity :: "entity \<Rightarrow> state \<Rightarrow> state" where
  "removeEntity e st =
     (let st1 = st\<lparr>entities := splice_entity (eid e) (entities st)\<rparr>;
          st2 = disposeObject e (st1\<lparr>scene_children := removeAll (eid e) (scene_children st1)\<rparr>);
          st3 = st2\<lparr>objectList := filter (\<lambda>v. v \<noteq> eid e) (objectList st2)\<rparr>;
          st4 = (if selectedEntity st3 = Some (eid e)
                 then st3\<lparr>selectedEntity := None, transform_object := None\<rparr> else st3)
      in refreshSceneJson st4)"

text \<open>The click handler of the delete button.\<close>

definition deleteButton_click :: "state \<Rightarrow> state" where
  "deleteButton_click st =
     (case selected_object st of
        None \<Rightarrow> st
      | Some toRemove \<Rightarrow> removeEntity toRemove (selectEntity None st))"

section \<open>Sync engine: the property form and the gizmo\<close>

text \<open>A write through a reference to an entity object reaches the object in the list.\<close>

definition update_entity :: "entity_id \<Rightarrow> (entity \<Rightarrow> entity) \<Rightarrow> state \<Rightarrow> state" where
  "update_entity i f st = st\<lparr>entities := map (\<lambda>e. if eid e = i then f e else e) (entities st)\<rparr>"

fun axisUpdater :: "axis \<Rightarrow> number \<Rightarrow> vec3 \<Rightarrow> vec3" where
  "axisUpdater X v vector = vector\<lparr>vx := v\<rparr>"
| "axisUpdater Y v vector = vector\<lparr>vy := v\<rparr>"
| "axisUpdater Z v vector = vector\<lparr>vz := v\<rparr>"

text \<open>
  \<^verbatim>\<open>updateEntityFromTransform\<close>: the canonical centre (position, for a light) is read
  back from the visual node.
\<close>

definition updateEntityFromTransform :: "entity \<Rightarrow> entity" where
  "updateEntityFromTransform e =
     (case data e of
        LightData p i d \<Rightarrow> e\<lparr>data := LightData (position (mesh e)) i d\<rparr>
      | SphereData c r k \<Rightarrow> e\<lparr>data := SphereData (position (mesh e)) r k\<rparr>
      | CubeData c s k \<Rightarrow> e\<lparr>data := CubeData (position (mesh e)) s k\<rparr>)"

definition setEntityPosition :: "(vec3 \<Rightarrow> vec3) \<Rightarrow> state \<Rightarrow> state" where
  "setEntityPosition updateFn st =
     (case selected_object st of
        None \<Rightarrow> st
      | Some sel \<Rightarrow>
          (let updated = updateFn (position (mesh sel));
               write = (\<lambda>e. updateEntityFromTransform (e\<lparr>mesh := (mesh e)\<lparr>position := updated\<rparr>\<rparr>))
           in refreshSceneJson (update_entity (eid sel) write st)))"

text \<open>
  The change listener that \<^verbatim>\<open>createNumberField\<close> installs, on
  \<open>parsed = parseFloat(input.value)\<close>.
\<close>

definition createNumberField :: "number \<Rightarrow> (number \<Rightarrow> state \<Rightarrow> state) \<Rightarrow> state \<Rightarrow> state" where
  "createNumberField parsed onChange st = (if \<not> Number_isNaN parsed then onChange parsed st else st)"

text \<open>
  The callbacks that \<^verbatim>\<open>refreshEntityForm\<close> builds for the selected entity, as writes
  to that entity; each exists only in the form of its kind.
\<close>

definition radius_onChange :: "number \<Rightarrow> entity \<Rightarrow> entity" where
  "radius_onChange v e =
     (case data e of
        SphereData center radius color \<Rightarrow>
          (let radius' = Math_max (Fin 0.1) v;
               uniformScale = js_div radius' (Fin 1.0);
               m = (mesh e)\<lparr>scale := \<lparr>vx = uniformScale, vy = uniformScale, vz = uniformScale\<rparr>\<rparr>
           in e\<lparr>data := SphereData center radius' color,
                mesh := m\<lparr>position := (position m)\<lparr>vy := vy center\<rparr>\<rparr>\<rparr>)
      | _ \<Rightarrow> e)"

definition size_onChange :: "axis \<Rightarrow> number \<Rightarrow> entity \<Rightarrow> entity" where
  "size_onChange a v e =
     (case data e of
        CubeData center sz color \<Rightarrow>
          (let s = Math_max (Fin 0.1) v; m = mesh e in
           (case a of
              X \<Rightarrow> e\<lparr>data := CubeData center (sz\<lparr>vx := s\<rparr>) color,
                      mesh := m\<lparr>scale := (scale m)\<lparr>vx := js_div s (parameters_width (geometry m))\<rparr>\<rparr>\<rparr>
            | Y \<Rightarrow> e\<lparr>data := CubeData center (sz\<lparr>vy := s\<rparr>) color,
                      mesh := m\<lparr>scale := (scale m)\<lparr>vy := js_div s (parameters_height (geometry m))\<rparr>\<rparr>\<rparr>
            | Z \<Rightarrow> e\<lparr>data := CubeData center (sz\<lparr>vz := s\<rparr>) color,
                      mesh := m\<lparr>scale := (scale m)\<lparr>vz := js_div s (parameters_depth (geometry m))\<rparr>\<rparr>\<rparr>))
      | _ \<Rightarrow> e)"

text \<open>The colour field's callback, on the value of its \<^verbatim>\<open>#rrggbb\<close> string.\<close>

definition color_onChange :: "int \<Rightarrow> entity \<Rightarrow> entity" where
  "color_onChange hex e =
     (case data e of
        SphereData c r k \<Rightarrow>
          e\<lparr>data := SphereData c r (hexToColor hex),
            mesh := (mesh e)\<lparr>material := Some (THREE_Color hex)\<rparr>\<rparr>
      | CubeData c s k \<Rightarrow>
          e\<lparr>data := CubeData c s (hexToColor hex),
            mesh := (mesh e)\<lparr>material := Some (THREE_Color hex)\<rparr>\<rparr>
      | _ \<Rightarrow> e)"

datatype channel = R | G | B

definition intensity_onChange :: "channel \<Rightarrow> number \<Rightarrow> entity \<Rightarrow> entity" where
  "intensity_onChange c v e =
     (case data e of
        LightData p i d \<Rightarrow>
          (let i' = (case c of R \<Rightarrow> i\<lparr>cr := Math_max (Fin 0) v\<rparr>
                             | G \<Rightarrow> i\<lparr>cg := Math_max (Fin 0) v\<rparr>
                             | B \<Rightarrow> i\<lparr>cb := Math_max (Fin 0) v\<rparr>)
           in e\<lparr>data := LightData p i' d, light := Some \<lparr>cr = cr i', cg = cg i', cb = cb i'\<rparr>\<rparr>)
      | _ \<Rightarrow> e)"

definition direction_onChange :: "axis \<Rightarrow> number \<Rightarrow> entity \<Rightarrow> entity" where
  "direction_onChange a v e =
     (case data e of
        LightData p i d \<Rightarrow> e\<lparr>data := LightData p i (axisUpdater a v d)\<rparr>
      | _ \<Rightarrow> e)"

text \<open>
  A callback of the form of kind \<open>k\<close> runs on the selected entity and ends with
  \<^verbatim>\<open>refreshSceneJson()\<close>; there is no such field when another kind, or nothing, is
  selected.
\<close>

definition on_selected :: "kind \<Rightarrow> (entity \<Rightarrow> entity) \<Rightarrow> state \<Rightarrow> state" where
  "on_selected k f st =
     (case selected_object st of
        None \<Rightarrow> st
      | Some e \<Rightarrow> if kind e = k then refreshSceneJson (update_entity (eid e) f st) else st)"

definition setRadius :: "number \<Rightarrow> state \<Rightarrow> state" where
  "setRadius parsed = createNumberField parsed (\<lambda>v. on_selected Sphere (radius_onChange v))"

definition setExtents :: "axis \<Rightarrow> number \<Rightarrow> state \<Rightarrow> state" where
  "setExtents a parsed = createNumberField parsed (\<lambda>v. on_selected Cube (size_onChange a v))"

definition setColor :: "int \<Rightarrow> state \<Rightarrow> state" where
  "setColor hex st =
     (case selected_object st of
        None \<Rightarrow> st
      | Some e \<Rightarrow> if kind e = Light then st
                  else refreshSceneJson (update_entity (eid e) (color_onChange hex) st))"

definition setLightIntensity :: "channel \<Rightarrow> number \<Rightarrow> state \<Rightarrow> state" where
  "setLightIntensity c parsed =
     createNumberField parsed (\<lambda>v. on_selected Light (intensity_onChange c v))"

definition setLightDirection :: "axis \<Rightarrow> number \<Rightarrow> state \<Rightarrow> state" where
  "setLightDirection a parsed =
     createNumberField parsed (\<lambda>v. on_selected Light (direction_onChange a v))"

definition setPosition :: "axis \<Rightarrow> number \<Rightarrow> state \<Rightarrow> state" where
  "setPosition a parsed = createNumberField parsed (\<lambda>v. setEntityPosition (axisUpdater a v))"

text \<open>
  The gizmo's \<^verbatim>\<open>objectChange\<close>: the transform control has moved the node it is attached
  to, to \<open>p\<close>; the listener reads the selected entity back from its node.
\<close>

definition objectChange :: "vec3 \<Rightarrow> state \<Rightarrow> state" where
  "objectChange p st =
     (case transform_object st of
        None \<Rightarrow> st
      | Some i \<Rightarrow>
          (let st1 = update_entity i (\<lambda>e. e\<lparr>mesh := (mesh e)\<lparr>position := p\<rparr>\<rparr>) st in
           (case selected_object st1 of
              None \<Rightarrow> st1
            | Some sel \<Rightarrow> refreshSceneJson (update_entity (eid sel) updateEntityFromTransform st1))))"

text \<open>
  The pointer listener: \<open>hit\<close> is the id of the entity that owns the nearest node under
  the pointer, \<open>None\<close> when the ray meets no node.
\<close>

definition pointerdown :: "entity_id option \<Rightarrow> state \<Rightarrow> state" where
  "pointerdown hit st =
     (case hit of
        None \<Rightarrow> st
      | Some i \<Rightarrow> (case find_entity i st of None \<Rightarrow> st | Some match \<Rightarrow> selectEntity (Some (eid match)) st))"

section \<open>The camera form\<close>

text \<open>\<^verbatim>\<open>parseNumber\<close>, on \<open>parsed = Number(value)\<close>.\<close>

definition parseNumber :: "number \<Rightarrow> number \<Rightarrow> number" where
  "parseNumber parsed fallback = (if Number_isFinite parsed then parsed else fallback)"

text \<open>The \<^verbatim>\<open>Number(..)\<close> of each field of the camera form.\<close>

record camera_form =
  posX :: number
  posY :: number
  posZ :: number
  lookX :: number
  lookY :: number
  lookZ :: number
  upX :: number
  upY :: number
  upZ :: number
  f_fov :: number
  f_width :: number
  f_height :: number

definition updateCameraStateFromForm :: "camera_form \<Rightarrow> state \<Rightarrow> state" where
  "updateCameraStateFromForm formData st =
     (let cs = cameraState st;
          cs' = \<lparr>cam_position =
                   \<lparr>vx = parseNumber (posX formData) (vx (cam_position cs)),
                    vy = parseNumber (posY formData) (vy (cam_position cs)),
                    vz = parseNumber (posZ formData) (vz (cam_position cs))\<rparr>,
                 cam_lookAt =
                   \<lparr>vx = parseNumber (lookX formData) (vx (cam_lookAt cs)),
                    vy = parseNumber (lookY formData) (vy (cam_lookAt cs)),
                    vz = parseNumber (lookZ formData) (vz (cam_lookAt cs))\<rparr>,
                 cam_up =
                   \<lparr>vx = parseNumber (upX formData) (vx (cam_up cs)),
                    vy = parseNumber (upY formData) (vy (cam_up cs)),
                    vz = parseNumber (upZ formData) (vz (cam_up cs))\<rparr>,
                 cam_fov = parseNumber (f_fov formData) (cam_fov cs),
                 cam_width = Math_max (Fin 1) (Math_round (parseNumber (f_width formData) (cam_width cs))),
                 cam_height = Math_max (Fin 1) (Math_round (parseNumber (f_height formData) (cam_height cs)))\<rparr>
      in refreshSceneJson (st\<lparr>cameraState := cs'\<rparr>))"

section \<open>Decoding: \<^verbatim>\<open>loadSceneFromJson\<close>\<close>

definition arr_vec :: "arr3 \<Rightarrow> vec3" where
  "arr_vec a = (case a of (a0, a1, a2) \<Rightarrow> \<lparr>vx = a0, vy = a1, vz = a2\<rparr>)"

definition arr_rgb :: "arr3 \<Rightarrow> rgb" where
  "arr_rgb a = (case a of (a0, a1, a2) \<Rightarrow> \<lparr>cr = a0, cg = a1, cb = a2\<rparr>)"

text \<open>
  The camera block. Reading \<^verbatim>\<open>cam.position[0]\<close> or \<^verbatim>\<open>cam.look_at[0]\<close> of an absent
  key throws a TypeError; the position has been written when the second read throws.
\<close>

definition load_camera :: "camera_doc \<Rightarrow> camera_state \<Rightarrow> camera_state completion" where
  "load_camera cam cs =
     (case j_position cam of
        None \<Rightarrow> Threw cs
      | Some p \<Rightarrow>
          (let cs1 = cs\<lparr>cam_position := arr_vec p\<rparr> in
           (case j_look_at cam of
              None \<Rightarrow> Threw cs1
            | Some l \<Rightarrow>
                (let cs2 = cs1\<lparr>cam_lookAt := arr_vec l\<rparr>;
                     cs3 = (case j_up cam of None \<Rightarrow> cs2 | Some u \<Rightarrow> cs2\<lparr>cam_up := arr_vec u\<rparr>);
                     cs4 = (case j_fov cam of None \<Rightarrow> cs3
                            | Some v \<Rightarrow> if truthy v then cs3\<lparr>cam_fov := v\<rparr> else cs3);
                     cs5 = (case j_width cam of None \<Rightarrow> cs4
                            | Some v \<Rightarrow> if truthy v then cs4\<lparr>cam_width := v\<rparr> else cs4);
                     cs6 = (case j_height cam of None \<Rightarrow> cs5
                            | Some v \<Rightarrow> if truthy v then cs5\<lparr>cam_height := v\<rparr> else cs5)
                 in Normal cs6))))"

text \<open>
  One pass of the loop over \<^verbatim>\<open>data.objects\<close>. Spreading an absent \<^verbatim>\<open>obj.color\<close> and
  indexing an absent \<^verbatim>\<open>obj.center\<close>, \<^verbatim>\<open>obj.max\<close> or \<^verbatim>\<open>obj.min\<close> throw, before
  anything is written. An unknown type tag is skipped.
\<close>

fun load_object :: "obj_doc \<Rightarrow> state \<Rightarrow> state completion" where
  "load_object (SphereDoc center radius color) st =
     (case color of
        None \<Rightarrow> Threw st
      | Some c \<Rightarrow>
          (case center of
             None \<Rightarrow> Threw st
           | Some ctr \<Rightarrow>
               (let m = \<lparr>position = arr_vec ctr, scale = vec 1 1 1,
                         geometry = SphereGeometry (Fin 1), material = Some (arr_rgb c)\<rparr>;
                    (i, st1) = generateId ''sphere'' st;
                    e = \<lparr>eid = i, mesh = m\<lparr>scale := \<lparr>vx = radius, vy = radius, vz = radius\<rparr>\<rparr>,
                         light = None, data = SphereData (position m) radius (arr_rgb c)\<rparr>;
                    st2 = st1\<lparr>scene_children := scene_children st1 @ [i],
                              entities := entities st1 @ [e]\<rparr>
                in Normal (addListItem e st2))))"
| "load_object (CubeDoc mn mx color) st =
     (case mx of
        None \<Rightarrow> Threw st
      | Some (mx0, mx1, mx2) \<Rightarrow>
          (case mn of
             None \<Rightarrow> Threw st
           | Some (mn0, mn1, mn2) \<Rightarrow>
               (let width = js_sub mx0 mn0; height = js_sub mx1 mn1; depth = js_sub mx2 mn2 in
                (case color of
                   None \<Rightarrow> Threw st
                 | Some c \<Rightarrow>
                     (let center = \<lparr>vx = js_div (js_add mn0 mx0) (Fin 2),
                                    vy = js_div (js_add mn1 mx1) (Fin 2),
                                    vz = js_div (js_add mn2 mx2) (Fin 2)\<rparr>;
                          m = \<lparr>position = center, scale = vec 1 1 1,
                               geometry = BoxGeometry width height depth,
                               material = Some (arr_rgb c)\<rparr>;
                          (i, st1) = generateId ''cube'' st;
                          e = \<lparr>eid = i, mesh = m, light = None,
                               data = CubeData (position m)
                                        \<lparr>vx = width, vy = height, vz = depth\<rparr> (arr_rgb c)\<rparr>;
                          st2 = st1\<lparr>scene_children := scene_children st1 @ [i],
                                    entities := entities st1 @ [e]\<rparr>
                      in Normal (addListItem e st2))))))"
| "load_object (OtherObj t) st = Normal st"

fun load_objects :: "obj_doc list \<Rightarrow> state \<Rightarrow> state completion" where
  "load_objects [] st = Normal st"
| "load_objects (obj # rest) st =
     (case load_object obj st of Threw st' \<Rightarrow> Threw st' | Normal st' \<Rightarrow> load_objects rest st')"

text \<open>One pass of the loop over \<^verbatim>\<open>data.lights\<close>; every field has a default.\<close>

fun load_light :: "light_doc \<Rightarrow> state \<Rightarrow> state" where
  "load_light (PointDoc pos intensity direction) st =
     (let p = (case pos of None \<Rightarrow> (Fin 0, Fin 5, Fin 0) | Some a \<Rightarrow> a);
          m = \<lparr>position = arr_vec p, scale = vec 1 1 1, geometry = NoGeometry, material = None\<rparr>;
          (i, st1) = generateId ''light'' st;
          inten = (case intensity of None \<Rightarrow> col 1.0 1.0 1.0 | Some a \<Rightarrow> arr_rgb a);
          dir = (case direction of None \<Rightarrow> vec 0.0 (- 1.0) 0.0 | Some a \<Rightarrow> arr_vec a);
          e = \<lparr>eid = i, mesh = m, light = Some inten, data = LightData (position m) inten dir\<rparr>;
          st2 = st1\<lparr>scene_children := scene_children st1 @ [i],
                    entities := entities st1 @ [e]\<rparr>
      in addListItem e st2)"
| "load_light (OtherLight t) st = st"

definition loadSceneFromJson :: "json \<Rightarrow> state \<Rightarrow> state completion" where
  "loadSceneFromJson jdata st =
     (let st0 = fold removeEntity (entities st) st in
      (case jdata of
         JNull \<Rightarrow> Threw st0
       | JObject d \<Rightarrow>
           (case (case j_camera d of None \<Rightarrow> Normal (cameraState st0)
                  | Some cam \<Rightarrow> load_camera cam (cameraState st0)) of
              Threw cs \<Rightarrow> Threw (st0\<lparr>cameraState := cs\<rparr>)
            | Normal cs \<Rightarrow>
                (case load_objects (case j_objects d of None \<Rightarrow> [] | Some os \<Rightarrow> os)
                        (st0\<lparr>cameraState := cs\<rparr>) of
                   Threw st2 \<Rightarrow> Threw st2
                 | Normal st2 \<Rightarrow>
                     (let st3 = fold load_light (case j_lights d of None \<Rightarrow> [] | Some ls \<Rightarrow> ls) st2;
                          st4 = (if entities st3 \<noteq> []
                                 then selectEntity (Some (eid (last (entities st3)))) st3
                                 else selectEntity None st3)
                      in Normal (refreshSceneJson st4))))))"

text \<open>
  The \<^verbatim>\<open>onload\<close> handler of the import, on the outcome of \<^verbatim>\<open>JSON.parse(reader.result)\<close>
  (\<open>None\<close> when it throws). The result says whether the alert
  \<^verbatim>\<open>"Failed to parse scene JSON"\<close> was shown.
\<close>

definition reader_onload :: "json option \<Rightarrow> state \<Rightarrow> bool \<times> state" where
  "reader_onload parsed st =
     (case parsed of
        None \<Rightarrow> (True, st)
      | Some jdata \<Rightarrow>
          (case loadSceneFromJson jdata st of
             Threw st' \<Rightarrow> (True, st')
           | Normal st' \<Rightarrow> (False, st')))"

section \<open>The editor as a state machine\<close>

datatype event =
    AddSphere | AddCube | AddLight
  | ListChange "entity_id option"
  | PointerDown "entity_id option"
  | PositionField axis number
  | RadiusField number
  | SizeField axis number
  | ColorField int
  | IntensityField channel number
  | DirectionField axis number
  | ObjectChange vec3
  | DeleteClick
  | CameraFormChange camera_form
  | ImportLoad "json option"

fun step :: "event \<Rightarrow> state \<Rightarrow> state" where
  "step AddSphere st = createSphereEntity st"
| "step AddCube st = createCubeEntity st"
| "step AddLight st = createLightEntity st"
| "step (ListChange i) st = selectEntity i st"
| "step (PointerDown hit) st = pointerdown hit st"
| "step (PositionField a v) st = setPosition a v st"
| "step (RadiusField v) st = setRadius v st"
| "step (SizeField a v) st = setExtents a v st"
| "step (ColorField hex) st = setColor hex st"
| "step (IntensityField c v) st = setLightIntensity c v st"
| "step (DirectionField a v) st = setLightDirection a v st"
| "step (ObjectChange p) st = objectChange p st"
| "step DeleteClick st = deleteButton_click st"
| "step (CameraFormChange formData) st = updateCameraStateFromForm formData st"
| "step (ImportLoad parsed) st = snd (reader_onload parsed st)"

definition run :: "event list \<Rightarrow> state \<Rightarrow> state" where
  "run evs st = fold step evs st"

text \<open>The state once the module has been loaded.\<close>

definition init_state :: state where
  "init_state =
     refreshSceneJson
       \<lparr>entities = [], selectedEntity = None, idCounter = 1,
        cameraState = \<lparr>cam_position = vec 8 6 8, cam_lookAt = vec 0 1 0, cam_up = vec 0 1 0,
                       cam_fov = Fin 60, cam_width = Fin 640, cam_height = Fin 480\<rparr>,
        objectList = [], scene_children = [], transform_object = None, disposed = [],
        sceneJson = \<lparr>j_camera = None, j_objects = None, j_lights = None\<rparr>\<rparr>"

section \<open>Notions used by the properties\<close>

definition ids :: "state \<Rightarrow> entity_id list" where
  "ids st = map eid (entities st)"

text \<open>The ids that are live at some moment of a run of events from a state.\<close>

fun ever_live :: "event list \<Rightarrow> state \<Rightarrow> entity_id set" where
  "ever_live [] st = set (ids st)"
| "ever_live (ev # evs) st = set (ids st) \<union> ever_live evs (step ev st)"

subsection \<open>Colour channels of a document\<close>

definition channel_ok :: "number \<Rightarrow> bool" where
  "channel_ok c = (num_le (Fin 0) c \<and> num_le c (Fin 1))"

fun arr_list :: "arr3 option \<Rightarrow> number list" where
  "arr_list None = []"
| "arr_list (Some (a0, a1, a2)) = [a0, a1, a2]"

fun obj_colors :: "obj_doc \<Rightarrow> number list" where
  "obj_colors (SphereDoc center radius color) = arr_list color"
| "obj_colors (CubeDoc mn mx color) = arr_list color"
| "obj_colors (OtherObj t) = []"

definition doc_colors :: "scene_doc \<Rightarrow> number list" where
  "doc_colors d = concat (map obj_colors (case j_objects d of None \<Rightarrow> [] | Some os \<Rightarrow> os))"

definition colors_in_range :: "scene_doc \<Rightarrow> bool" where
  "colors_in_range d = list_all channel_ok (doc_colors d)"

text \<open>An event that imports a document brings colours within \<open>[0, 1]\<close> only.\<close>

fun import_in_range :: "event \<Rightarrow> bool" where
  "import_in_range (ImportLoad (Some (JObject d))) = colors_in_range d"
| "import_in_range _ = True"

fun is_import :: "event \<Rightarrow> bool" where
  "is_import (ImportLoad parsed) = True"
| "is_import _ = False"

subsection \<open>The document read off the visual nodes\<close>

text \<open>
  The object record that a visual node denotes: its position, its base geometry scaled
  by its scale, and the colour of its material.
\<close>

definition visual_objects_of :: "entity \<Rightarrow> obj_doc list" where
  "visual_objects_of e =
     (let m = mesh e; p = position m; s = scale m in
      (case geometry m of
         SphereGeometry r0 \<Rightarrow>
           [SphereDoc (Some (toArray p)) (js_mul r0 (vx s)) (map_option colorToArray (material m))]
       | BoxGeometry w h d \<Rightarrow>
           (let hx = js_div (js_mul w (vx s)) (Fin 2);
                hy = js_div (js_mul h (vy s)) (Fin 2);
                hz = js_div (js_mul d (vz s)) (Fin 2)
            in [CubeDoc (Some (js_sub (vx p) hx, js_sub (vy p) hy, js_sub (vz p) hz))
                        (Some (js_add (vx p) hx, js_add (vy p) hy, js_add (vz p) hz))
                        (map_option colorToArray (material m))])
       | NoGeometry \<Rightarrow> []))"

text \<open>The position (and the light colour) that the group of a light denotes.\<close>

definition visual_lights_of :: "entity \<Rightarrow> light_doc list" where
  "visual_lights_of e =
     (case geometry (mesh e) of
        NoGeometry \<Rightarrow>
          [PointDoc (Some (toArray (position (mesh e)))) (map_option colorToArray (light e)) None]
      | _ \<Rightarrow> [])"

text \<open>Two numbers agree within the tolerance \<open>1e-6\<close>.\<close>

fun close :: "number \<Rightarrow> number \<Rightarrow> bool" where
  "close (Fin a) (Fin b) = (\<bar>a - b\<bar> \<le> 1 / 1000000)"
| "close a b = False"

fun close3 :: "arr3 option \<Rightarrow> arr3 option \<Rightarrow> bool" where
  "close3 (Some (a0, a1, a2)) (Some (b0, b1, b2)) = (close a0 b0 \<and> close a1 b1 \<and> close a2 b2)"
| "close3 a b = False"

fun close_obj :: "obj_doc \<Rightarrow> obj_doc \<Rightarrow> bool" where
  "close_obj (SphereDoc c r k) (SphereDoc c' r' k') = (close3 c c' \<and> close r r' \<and> close3 k k')"
| "close_obj (CubeDoc mn mx k) (CubeDoc mn' mx' k') = (close3 mn mn' \<and> close3 mx mx' \<and> close3 k k')"
| "close_obj a b = False"

fun close_light :: "light_doc \<Rightarrow> light_doc \<Rightarrow> bool" where
  "close_light (PointDoc p i d) (PointDoc p' i' d') = close3 p p'"
| "close_light a b = False"

text \<open>
  The exported record of an entity matches its visual node in every numeric field
  (centre or position, radius, corners, colour) within the tolerance.
\<close>

definition matches_visual :: "entity \<Rightarrow> bool" where
  "matches_visual e =
     (list_all2 close_obj (objects_of (data e)) (visual_objects_of e) \<and>
      list_all2 close_light (lights_of (data e)) (visual_lights_of e))"

text \<open>The geometric fields of a record: the colour is left out.\<close>

fun geometry_fields :: "obj_doc \<Rightarrow> obj_doc" where
  "geometry_fields (SphereDoc c r k) = SphereDoc c r None"
| "geometry_fields (CubeDoc mn mx k) = CubeDoc mn mx None"
| "geometry_fields (OtherObj t) = OtherObj t"

fun light_fields :: "light_doc \<Rightarrow> light_doc" where
  "light_fields (PointDoc p i d) = PointDoc p i None"
| "light_fields (OtherLight t) = OtherLight t"

definition same_geometry :: "entity \<Rightarrow> bool" where
  "same_geometry e =
     (map geometry_fields (objects_of (data e)) = map geometry_fields (visual_objects_of e) \<and>
      map light_fields (lights_of (data e)) = visual_lights_of e)"

definition same_color :: "entity \<Rightarrow> bool" where
  "same_color e = (map obj_colors (objects_of (data e)) = map obj_colors (visual_objects_of e))"

text \<open>An entity still has the colour that its create operation gave it.\<close>

definition creation_color :: "entity \<Rightarrow> bool" where
  "creation_color e =
     ((\<exists>c r. data e = SphereData c r (col 0.533 0.8 1.0)) \<and>
        material (mesh e) = Some (THREE_Color 0x88ccff) \<or>
      (\<exists>c s. data e = CubeData c s (col 1.0 0.761 0.392)) \<and>
        material (mesh e) = Some (THREE_Color 0xffc164))"

subsection \<open>Complete documents and the round trip\<close>

fun finite3 :: "arr3 option \<Rightarrow> bool" where
  "finite3 (Some (a0, a1, a2)) = (Number_isFinite a0 \<and> Number_isFinite a1 \<and> Number_isFinite a2)"
| "finite3 None = False"

fun finite1 :: "number option \<Rightarrow> bool" where
  "finite1 (Some a) = Number_isFinite a"
| "finite1 None = False"

text \<open>Every field of the scene format is present, with a finite number in each place.\<close>

definition complete_camera :: "camera_doc \<Rightarrow> bool" where
  "complete_camera cam =
     (finite3 (j_position cam) \<and> finite3 (j_look_at cam) \<and> finite3 (j_up cam) \<and>
      finite1 (j_fov cam) \<and> finite1 (j_width cam) \<and> finite1 (j_height cam))"

fun complete_obj :: "obj_doc \<Rightarrow> bool" where
  "complete_obj (SphereDoc c r k) = (finite3 c \<and> Number_isFinite r \<and> finite3 k)"
| "complete_obj (CubeDoc mn mx k) = (finite3 mn \<and> finite3 mx \<and> finite3 k)"
| "complete_obj (OtherObj t) = False"

fun complete_light :: "light_doc \<Rightarrow> bool" where
  "complete_light (PointDoc p i d) = (finite3 p \<and> finite3 i \<and> finite3 d)"
| "complete_light (OtherLight t) = False"

definition complete_document :: "scene_doc \<Rightarrow> bool" where
  "complete_document d =
     ((case j_camera d of None \<Rightarrow> False | Some cam \<Rightarrow> complete_camera cam) \<and>
      (case j_objects d of None \<Rightarrow> False | Some os \<Rightarrow> list_all complete_obj os) \<and>
      (case j_lights d of None \<Rightarrow> False | Some ls \<Rightarrow> list_all complete_light ls))"

text \<open>The three optional numbers of the camera block are not zero.\<close>

definition nonzero_optics :: "scene_doc \<Rightarrow> bool" where
  "nonzero_optics d =
     (case j_camera d of
        None \<Rightarrow> False
      | Some cam \<Rightarrow> j_fov cam \<noteq> Some (Fin 0) \<and> j_width cam \<noteq> Some (Fin 0) \<and>
                    j_height cam \<noteq> Some (Fin 0))"

text \<open>Decoding into the fresh editor and encoding again; \<open>None\<close> when decoding throws.\<close>

definition roundtrip :: "scene_doc \<Rightarrow> scene_doc option" where
  "roundtrip d =
     (case loadSceneFromJson (JObject d) init_state of
        Normal st \<Rightarrow> Some (buildSceneJson st)
      | Threw st \<Rightarrow> None)"

subsection \<open>Example documents\<close>

text \<open>Scenario B of the specification, and the same document with \<^verbatim>\<open>"fov": 0\<close>.\<close>

definition scenario_B :: scene_doc where
  "scenario_B =
     \<lparr>j_camera = Some \<lparr>j_position = Some (Fin 0, Fin 0, Fin (- 5)),
                        j_look_at = Some (Fin 0, Fin 0, Fin 0),
                        j_up = Some (Fin 0, Fin 1, Fin 0),
                        j_fov = Some (Fin 60), j_width = Some (Fin 400),
                        j_height = Some (Fin 300)\<rparr>,
      j_objects = Some [CubeDoc (Some (Fin (- 2), Fin (- 1), Fin 3))
                                (Some (Fin (- 1), Fin 1, Fin 4))
                                (Some (Fin 0.2, Fin 0.2, Fin 1.0))],
      j_lights = Some []\<rparr>"

definition scenario_B_fov0 :: scene_doc where
  "scenario_B_fov0 =
     scenario_B\<lparr>j_camera := map_option (\<lambda>cam. cam\<lparr>j_fov := Some (Fin 0)\<rparr>) (j_camera scenario_B)\<rparr>"

text \<open>The light of the README's sample scene, which has no \<^verbatim>\<open>direction\<close>.\<close>

definition scenario_B_readme_light :: scene_doc where
  "scenario_B_readme_light =
     scenario_B\<lparr>j_lights := Some [PointDoc (Some (Fin 5, Fin 5, Fin (- 5)))
                                          (Some (Fin 1.0, Fin 1.0, Fin 1.0)) None]\<rparr>"

text \<open>A camera block without \<^verbatim>\<open>position\<close> and \<^verbatim>\<open>look_at\<close>.\<close>

definition camera_without_position :: scene_doc where
  "camera_without_position =
     \<lparr>j_camera = Some \<lparr>j_position = None, j_look_at = None, j_up = None,
                        j_fov = Some (Fin 60), j_width = None, j_height = None\<rparr>,
      j_objects = Some [], j_lights = Some []\<rparr>"

text \<open>A sphere whose colour lies outside \<open>[0, 1]\<close>.\<close>

definition overbright_sphere :: scene_doc where
  "overbright_sphere =
     \<lparr>j_camera = None,
      j_objects = Some [SphereDoc (Some (Fin 0, Fin 0, Fin 0)) (Fin 1)
                                  (Some (Fin 2, Fin (- 1), Fin 0.5))],
      j_lights = None\<rparr>"

text \<open>A camera form in which no field holds a finite number.\<close>

definition nan_form :: camera_form where
  "nan_form = \<lparr>posX = NaN, posY = PInf, posZ = NInf, lookX = NaN, lookY = NaN, lookZ = NaN,
               upX = NaN, upY = NaN, upZ = NaN, f_fov = PInf, f_width = NaN, f_height = PInf\<rparr>"

subsection \<open>Invariants of the registry\<close>

text \<open>
  Live ids are pairwise different and bounded by the counter, the selection is a live
  entity, and the gizmo is attached to nothing or to the node of the selection.
\<close>

definition registry_invariant :: "state \<Rightarrow> bool" where
  "registry_invariant st =
     (distinct (ids st) \<and> (\<forall>i\<in>set (ids st). snd i \<le> idCounter st) \<and>
      (\<forall>i. selectedEntity st = Some i \<longrightarrow> i \<in> set (ids st)) \<and>
      (transform_object st = None \<or> transform_object st = selectedEntity st))"

text \<open>
  A state extends another: entities with new, larger ids have been pushed, and nothing
  else of the registry has changed.
\<close>

definition grows :: "state \<Rightarrow> state \<Rightarrow> bool" where
  "grows st st' =
     (\<exists>new. entities st' = entities st @ new \<and> distinct (map eid new) \<and>
        (\<forall>e\<in>set new. idCounter st < snd (eid e) \<and> snd (eid e) \<le> idCounter st') \<and>
        idCounter st \<le> idCounter st' \<and> selectedEntity st' = selectedEntity st \<and>
        transform_object st' = transform_object st \<and> cameraState st' = cameraState st \<and>
        disposed st' = disposed st)"

text \<open>
  One step of the editor, seen on the ids: the counter does not decrease, the ids that
  survive keep their order, and the new ones lie above the old counter.
\<close>

definition id_step :: "state \<Rightarrow> state \<Rightarrow> bool" where
  "id_step st st' =
     (idCounter st \<le> idCounter st' \<and>
      (\<exists>new. ids st' = filter (\<lambda>i. i \<in> set (ids st')) (ids st) @ new \<and>
         (\<forall>i\<in>set new. idCounter st < snd i \<and> snd i \<le> idCounter st')))"

text \<open>The entities that the three create operations push when the new counter is \<open>n\<close>.\<close>

definition default_sphere :: "nat \<Rightarrow> entity" where
  "default_sphere n =
     \<lparr>eid = (''sphere'', n),
      mesh = \<lparr>position = vec 0 1 0, scale = vec 1 1 1, geometry = SphereGeometry (Fin 1),
              material = Some (THREE_Color 0x88ccff)\<rparr>,
      light = None, data = SphereData (vec 0 1 0) (Fin 1) (col 0.533 0.8 1.0)\<rparr>"

definition default_cube :: "nat \<Rightarrow> entity" where
  "default_cube n =
     \<lparr>eid = (''cube'', n),
      mesh = \<lparr>position = vec 0 0.75 0, scale = vec 1 1 1,
              geometry = BoxGeometry (Fin 1.5) (Fin 1.5) (Fin 1.5),
              material = Some (THREE_Color 0xffc164)\<rparr>,
      light = None,
      data = CubeData (vec 0 0.75 0) \<lparr>vx = Fin 1.5, vy = Fin 1.5, vz = Fin 1.5\<rparr>
               (col 1.0 0.761 0.392)\<rparr>"

definition default_light :: "nat \<Rightarrow> entity" where
  "default_light n =
     \<lparr>eid = (''light'', n),
      mesh = \<lparr>position = vec 3 5 3, scale = vec 1 1 1, geometry = NoGeometry, material = None\<rparr>,
      light = Some (col 1 1 1), data = LightData (vec 3 5 3) (col 1 1 1) (vec 0 (- 1) 0)\<rparr>"

text \<open>Moving the node of an entity and reading the entity back from it.\<close>

definition move_to :: "vec3 \<Rightarrow> entity \<Rightarrow> entity" where
  "move_to p e = updateEntityFromTransform (e\<lparr>mesh := (mesh e)\<lparr>position := p\<rparr>\<rparr>)"

text \<open>The writes that the property form and the gizmo make to one entity.\<close>

definition entity_edit :: "(entity \<Rightarrow> entity) \<Rightarrow> bool" where
  "entity_edit f =
     ((\<exists>p. f = move_to p) \<or> (\<exists>v. f = radius_onChange v) \<or> (\<exists>a v. f = size_onChange a v) \<or>
      (\<exists>hex. f = color_onChange hex) \<or> (\<exists>c v. f = intensity_onChange c v) \<or>
      (\<exists>a v. f = direction_onChange a v))"

fun completion_state :: "'a completion \<Rightarrow> 'a" where
  "completion_state (Normal s) = s"
| "completion_state (Threw s) = s"

text \<open>The events that write to one entity through the property form or the gizmo.\<close>

fun is_edit :: "event \<Rightarrow> bool" where
  "is_edit (PositionField a v) = True"
| "is_edit (RadiusField v) = True"
| "is_edit (SizeField a v) = True"
| "is_edit (ColorField hex) = True"
| "is_edit (IntensityField c v) = True"
| "is_edit (DirectionField a v) = True"
| "is_edit (ObjectChange p) = True"
| "is_edit _ = False"

text \<open>
  No resource has been released twice, and every released resource belonged to an entity
  that was live once and is live no more.
\<close>

definition dispose_invariant :: "state \<Rightarrow> bool" where
  "dispose_invariant st =
     (distinct (disposed st) \<and>
      (\<forall>x\<in>set (disposed st). fst x \<notin> set (ids st) \<and> snd (fst x) \<le> idCounter st))"

text \<open>A camera block with a position and without \<^verbatim>\<open>look_at\<close>.\<close>

definition camera_without_look_at :: scene_doc where
  "camera_without_look_at =
     \<lparr>j_camera = Some \<lparr>j_position = Some (Fin 1, Fin 2, Fin 3), j_look_at = None, j_up = None,
                        j_fov = None, j_width = None, j_height = None\<rparr>,
      j_objects = None, j_lights = None\<rparr>"

text \<open>
  A parsed document that cannot be decoded: \<^verbatim>\<open>null\<close>, or a camera block without
  \<^verbatim>\<open>position\<close> or without \<^verbatim>\<open>look_at\<close>.
\<close>

fun malformed :: "json \<Rightarrow> bool" where
  "malformed JNull = True"
| "malformed (JObject d) =
     (case j_camera d of
        None \<Rightarrow> False
      | Some cam \<Rightarrow> j_position cam = None \<or> j_look_at cam = None)"

text \<open>The camera state that such a document leaves: a position given is written.\<close>

fun camera_after_failure :: "json \<Rightarrow> camera_state \<Rightarrow> camera_state" where
  "camera_after_failure JNull cs = cs"
| "camera_after_failure (JObject d) cs =
     (case j_camera d of
        None \<Rightarrow> cs
      | Some cam \<Rightarrow> (case j_position cam of None \<Rightarrow> cs | Some p \<Rightarrow> cs\<lparr>cam_position := arr_vec p\<rparr>))"

text \<open>
  The three byte values from which \<^verbatim>\<open>colorToHex\<close> prints the \<^verbatim>\<open>#rrggbb\<close> string of the
  colour field: \<^verbatim>\<open>Math.round(clamp01(color.r) * 255)\<close> and its siblings.
\<close>

definition colorToHex :: "rgb \<Rightarrow> number \<times> number \<times> number" where
  "colorToHex color =
     (Math_round (js_mul (clamp01 (cr color)) (Fin 255)),
      Math_round (js_mul (clamp01 (cg color)) (Fin 255)),
      Math_round (js_mul (clamp01 (cb color)) (Fin 255)))"

text \<open>The colour channels that encoding writes for one entity lie within \<open>[0, 1]\<close>.\<close>

definition data_colors_ok :: "entity_data \<Rightarrow> bool" where
  "data_colors_ok d = list_all channel_ok (concat (map obj_colors (objects_of d)))"

text \<open>The canonical record that decoding makes of an object record, if it makes one.\<close>

fun doc_data :: "obj_doc \<Rightarrow> entity_data option" where
  "doc_data (SphereDoc (Some ctr) radius (Some c)) = Some (SphereData (arr_vec ctr) radius (arr_rgb c))"
| "doc_data (CubeDoc (Some (mn0, mn1, mn2)) (Some (mx0, mx1, mx2)) (Some c)) =
     Some (CubeData \<lparr>vx = js_div (js_add mn0 mx0) (Fin 2), vy = js_div (js_add mn1 mx1) (Fin 2),
                     vz = js_div (js_add mn2 mx2) (Fin 2)\<rparr>
                    \<lparr>vx = js_sub mx0 mn0, vy = js_sub mx1 mn1, vz = js_sub mx2 mn2\<rparr> (arr_rgb c))"
| "doc_data _ = None"

text \<open>And of a light record.\<close>

fun light_data :: "light_doc \<Rightarrow> entity_data option" where
  "light_data (PointDoc pos intensity direction) =
     Some (LightData (arr_vec (case pos of None \<Rightarrow> (Fin 0, Fin 5, Fin 0) | Some a \<Rightarrow> a))
             (case intensity of None \<Rightarrow> col 1.0 1.0 1.0 | Some a \<Rightarrow> arr_rgb a)
             (case direction of None \<Rightarrow> vec 0.0 (- 1.0) 0.0 | Some a \<Rightarrow> arr_vec a))"
| "light_data (OtherLight t) = None"

fun option_list :: "'a option \<Rightarrow> 'a list" where
  "option_list None = []"
| "option_list (Some x) = [x]"

subsection \<open>The text of a form field\<close>

text \<open>
  The text of a form field as far as the two parsers of the editor differ on it: the
  empty string, or the decimal text of a finite number.
\<close>

datatype field_text = EmptyText | NumberText rat

text \<open>
  \<^verbatim>\<open>Number(value)\<close>, which \<^verbatim>\<open>parseNumber\<close> applies to a field of the camera form:
  the empty string is the number 0.
\<close>

fun Number :: "field_text \<Rightarrow> number" where
  "Number EmptyText = Fin 0"
| "Number (NumberText q) = Fin q"

text \<open>
  \<^verbatim>\<open>parseFloat(input.value)\<close>, which the listener of an entity's number field applies:
  the empty string is NaN.
\<close>

fun parseFloat :: "field_text \<Rightarrow> number" where
  "parseFloat EmptyText = NaN"
| "parseFloat (NumberText q) = Fin q"

text \<open>
  The camera form as \<^verbatim>\<open>populateCameraForm\<close> fills it in the initial state, with the
  field \<^verbatim>\<open>posX\<close> cleared.
\<close>

definition cleared_posX_form :: camera_form where
  "cleared_posX_form =
     \<lparr>posX = Number EmptyText, posY = Number (NumberText 6), posZ = Number (NumberText 8),
      lookX = Number (NumberText 0), lookY = Number (NumberText 1), lookZ = Number (NumberText 0),
      upX = Number (NumberText 0), upY = Number (NumberText 1), upZ = Number (NumberText 0),
      f_fov = Number (NumberText 60), f_width = Number (NumberText 640),
      f_height = Number (NumberText 480)\<rparr>"

text \<open>A document whose cube has \<^verbatim>\<open>min[0] = max[0]\<close>: a box of width 0.\<close>

definition flat_cube :: scene_doc where
  "flat_cube =
     \<lparr>j_camera = j_camera scenario_B,
      j_objects = Some [CubeDoc (Some (Fin 0, Fin 0, Fin 0)) (Some (Fin 0, Fin 1, Fin 1))
                                (Some (Fin 1, Fin 1, Fin 1))],
      j_lights = Some []\<rparr>"

section \<open>Lemmas about numbers and about writes to the selected entity\<close>

lemma Math_max_floor: "num_less v (Fin a) \<Longrightarrow> Math_max (Fin a) v = Fin a"
  by (cases v) auto

lemma num_less_not_NaN: "num_less v w \<Longrightarrow> \<not> Number_isNaN v"
  by (cases v) auto

lemma find_update_entity:
  assumes "\<And>e. eid (f e) = eid e"
  shows "find (\<lambda>e. eid e = i) (map (\<lambda>e. if eid e = j then f e else e) es) =
         map_option (\<lambda>e. if eid e = j then f e else e) (find (\<lambda>e. eid e = i) es)"
  using assms by (induction es) auto

lemma eid_radius_onChange [simp]: "eid (radius_onChange v e) = eid e"
  by (simp add: radius_onChange_def Let_def split: entity_data.splits)

lemma eid_size_onChange [simp]: "eid (size_onChange a v e) = eid e"
  by (simp add: size_onChange_def Let_def split: entity_data.splits axis.splits)

lemma selected_object_update:
  assumes "\<And>e. eid (f e) = eid e"
  shows "selected_object (refreshSceneJson (update_entity j f st)) =
         map_option (\<lambda>e. if eid e = j then f e else e) (selected_object st)"
  using assms
  by (simp add: selected_object_def refreshSceneJson_def update_entity_def find_entity_def
      find_update_entity split: option.splits)

lemma update_entity_twice:
  "update_entity i f (refreshSceneJson (update_entity i f st)) =
   (refreshSceneJson (update_entity i f st))\<lparr>entities := map (\<lambda>e. if eid e = i then f e else e) (map (\<lambda>e. if eid e = i then f e else e) (entities st))\<rparr>"
  by (simp add: update_entity_def refreshSceneJson_def)

lemma radius_onChange_idem: "radius_onChange v (radius_onChange v e) = radius_onChange v e"
  by (simp add: radius_onChange_def Let_def split: entity_data.splits)

lemma size_onChange_idem: "size_onChange a v (size_onChange a v e) = size_onChange a v e"
  by (cases a) (simp_all add: size_onChange_def Let_def split: entity_data.splits)

lemma on_selected_idem:
  assumes "\<And>e. eid (f e) = eid e" "\<And>e. kind (f e) = kind e" "\<And>e. f (f e) = f e"
  shows "on_selected k f (on_selected k f st) = on_selected k f st"
proof (cases "selected_object st")
  case None
  then show ?thesis by (simp add: on_selected_def)
next
  case (Some e)
  show ?thesis
  proof (cases "kind e = k")
    case False
    with Some show ?thesis by (simp add: on_selected_def)
  next
    case True
    have g: "(\<lambda>ea. if eid ea = eid e then f ea else ea) \<circ> (\<lambda>ea. if eid ea = eid e then f ea else ea)
        = (\<lambda>ea. if eid ea = eid e then f ea else ea)"
      using assms by (auto simp: fun_eq_iff)
    show ?thesis
      using Some True assms
      by (simp add: on_selected_def selected_object_update [of f, OF assms(1)])
         (simp add: update_entity_def refreshSceneJson_def buildSceneJson_def g)
  qed
qed


lemma kind_radius_onChange [simp]: "kind (radius_onChange v e) = kind e"
  by (simp add: radius_onChange_def kind_def Let_def split: entity_data.splits)

lemma kind_size_onChange [simp]: "kind (size_onChange a v e) = kind e"
  by (simp add: size_onChange_def kind_def Let_def split: entity_data.splits axis.splits)

section \<open>The floor of radius and extents\<close>

text \<open>
  Claim C9. When a sphere is selected and a value below \<open>0.1\<close> (for instance \<open>-5\<close>) is
  committed in its radius field, the radius becomes exactly \<open>0.1\<close>, and committing the
  same value again gives the same state: the floor is idempotent and never an error. The
  same floor applies to the width, the height and the depth of a selected cube.
\<close>

theorem floor_at_one_tenth:
  assumes "num_less v (Fin 0.1)" and "selected_object st = Some e"
  shows "(data e = SphereData c r k \<longrightarrow>
            (\<exists>e'. selected_object (setRadius v st) = Some e' \<and> data e' = SphereData c (Fin 0.1) k) \<and>
            setRadius v (setRadius v st) = setRadius v st) \<and>
         (data e = CubeData c s k \<longrightarrow>
            (\<exists>e'. selected_object (setExtents X v st) = Some e' \<and>
                  data e' = CubeData c (s\<lparr>vx := Fin 0.1\<rparr>) k) \<and>
            (\<exists>e'. selected_object (setExtents Y v st) = Some e' \<and>
                  data e' = CubeData c (s\<lparr>vy := Fin 0.1\<rparr>) k) \<and>
            (\<exists>e'. selected_object (setExtents Z v st) = Some e' \<and>
                  data e' = CubeData c (s\<lparr>vz := Fin 0.1\<rparr>) k) \<and>
            (\<forall>a. setExtents a v (setExtents a v st) = setExtents a v st))"
proof -
  have nn: "\<not> Number_isNaN v" using assms(1) by (rule num_less_not_NaN)
  have mx: "Math_max (Fin 0.1) v = Fin 0.1" using assms(1) by (rule Math_max_floor)
  have sph: "data e = SphereData c r k \<Longrightarrow>
      \<exists>e'. selected_object (setRadius v st) = Some e' \<and> data e' = SphereData c (Fin 0.1) k"
    using assms(2) nn mx
    by (simp add: setRadius_def createNumberField_def on_selected_def kind_def
        selected_object_update [OF eid_radius_onChange] radius_onChange_def Let_def)
  have cub: "data e = CubeData c s k \<Longrightarrow>
      \<exists>e'. selected_object (setExtents a v st) = Some e' \<and>
           data e' = CubeData c (axisUpdater a (Fin 0.1) s) k" for a
    using assms(2) nn mx
    by (cases a) (simp_all add: setExtents_def createNumberField_def on_selected_def kind_def
        selected_object_update [OF eid_size_onChange] size_onChange_def Let_def)
  have idem1: "setRadius v (setRadius v st) = setRadius v st"
    using nn by (simp add: setRadius_def createNumberField_def on_selected_idem radius_onChange_idem)
  have idem2: "setExtents a v (setExtents a v st) = setExtents a v st" for a
    using nn by (simp add: setExtents_def createNumberField_def on_selected_idem size_onChange_idem)
  show ?thesis
    using sph cub [of X] cub [of Y] cub [of Z] idem1 idem2 by simp
qed

theorem floor_at_one_tenth_witness:
  "num_less (Fin (- 5)) (Fin 0.1) \<and>
   (\<exists>e'. selected_object (setRadius (Fin (- 5)) (run [AddSphere] init_state)) = Some e' \<and>
         data e' = SphereData (vec 0 1 0) (Fin 0.1) (col 0.533 0.8 1.0)) \<and>
   setRadius (Fin (- 5)) (setRadius (Fin (- 5)) (run [AddSphere] init_state)) =
     setRadius (Fin (- 5)) (run [AddSphere] init_state) \<and>
   (\<exists>e'. selected_object (setExtents Y (Fin (- 5)) (run [AddCube] init_state)) = Some e' \<and>
         data e' = CubeData (vec 0 0.75 0) \<lparr>vx = Fin 1.5, vy = Fin 0.1, vz = Fin 1.5\<rparr>
                     (col 1.0 0.761 0.392))"
proof -
  have s: "selected_object (run [AddSphere] init_state) =
        Some \<lparr>eid = (''sphere'', 2),
              mesh = \<lparr>position = vec 0 1 0, scale = vec 1 1 1, geometry = SphereGeometry (Fin 1),
                      material = Some (THREE_Color 0x88ccff)\<rparr>,
              light = None, data = SphereData (vec 0 1 0) (Fin 1) (col 0.533 0.8 1.0)\<rparr>"
    by code_simp
  have c: "selected_object (run [AddCube] init_state) =
        Some \<lparr>eid = (''cube'', 2),
              mesh = \<lparr>position = vec 0 0.75 0, scale = vec 1 1 1,
                      geometry = BoxGeometry (Fin 1.5) (Fin 1.5) (Fin 1.5),
                      material = Some (THREE_Color 0xffc164)\<rparr>,
              light = None,
              data = CubeData (vec 0 0.75 0) \<lparr>vx = Fin 1.5, vy = Fin 1.5, vz = Fin 1.5\<rparr>
                       (col 1.0 0.761 0.392)\<rparr>"
    by code_simp
  have l: "num_less (Fin (- 5)) (Fin 0.1)" by simp
  show ?thesis
    using floor_at_one_tenth [OF l s, of "vec 0 1 0" "Fin 1" "col 0.533 0.8 1.0"]
      floor_at_one_tenth [OF l c, of "vec 0 0.75 0" _ "col 1.0 0.761 0.392"
        "\<lparr>vx = Fin 1.5, vy = Fin 1.5, vz = Fin 1.5\<rparr>"] l
    by simp
qed

section \<open>Decoding the camera block\<close>

lemma cameraState_refreshSceneJson [simp]: "cameraState (refreshSceneJson st) = cameraState st"
  by (simp add: refreshSceneJson_def)

lemma cameraState_selectEntity [simp]: "cameraState (selectEntity i st) = cameraState st"
  by (simp add: selectEntity_def split: option.splits)

lemma cameraState_removeEntity [simp]: "cameraState (removeEntity e st) = cameraState st"
  by (simp add: removeEntity_def disposeObject_def Let_def)

lemma cameraState_clear [simp]: "cameraState (fold removeEntity es st) = cameraState st"
  by (induction es arbitrary: st) simp_all

lemma cameraState_load_object:
  "load_object obj st = Normal st' \<Longrightarrow> cameraState st' = cameraState st"
  by (cases obj)
     (auto simp: generateId_def addListItem_def Let_def split: option.splits prod.splits)

lemma cameraState_load_objects:
  "load_objects os st = Normal st' \<Longrightarrow> cameraState st' = cameraState st"
proof (induction os arbitrary: st)
  case Nil
  then show ?case by simp
next
  case (Cons obj os)
  then show ?case
    by (auto split: completion.splits dest: cameraState_load_object)
qed

lemma cameraState_load_light [simp]: "cameraState (load_light l st) = cameraState st"
  by (cases l) (simp_all add: generateId_def addListItem_def Let_def split: prod.splits)

lemma cameraState_load_lights [simp]: "cameraState (fold load_light ls st) = cameraState st"
  by (induction ls arbitrary: st) simp_all

lemma loadSceneFromJson_camera:
  assumes "loadSceneFromJson (JObject d) st = Normal st'" and "j_camera d = Some cam"
  shows "load_camera cam (cameraState st) = Normal (cameraState st')"
  using assms
  by (auto simp: loadSceneFromJson_def Let_def split: completion.splits
      dest!: cameraState_load_objects)

lemma load_camera_zero:
  "load_camera (cam\<lparr>j_fov := Some (Fin 0)\<rparr>) cs = load_camera (cam\<lparr>j_fov := None\<rparr>) cs"
  "load_camera (cam\<lparr>j_width := Some (Fin 0)\<rparr>) cs = load_camera (cam\<lparr>j_width := None\<rparr>) cs"
  "load_camera (cam\<lparr>j_height := Some (Fin 0)\<rparr>) cs = load_camera (cam\<lparr>j_height := None\<rparr>) cs"
  by (simp_all add: load_camera_def Let_def split: option.splits)

lemma load_camera_keeps:
  assumes "load_camera cam cs = Normal cs'"
  shows "j_fov cam = Some (Fin 0) \<or> j_fov cam = None \<Longrightarrow> cam_fov cs' = cam_fov cs"
    and "j_width cam = Some (Fin 0) \<or> j_width cam = None \<Longrightarrow> cam_width cs' = cam_width cs"
    and "j_height cam = Some (Fin 0) \<or> j_height cam = None \<Longrightarrow> cam_height cs' = cam_height cs"
  using assms
  by (auto simp: load_camera_def Let_def split: option.splits if_splits)

text \<open>
  Claim C10. During import a camera field \<^verbatim>\<open>fov\<close>, \<^verbatim>\<open>width\<close> or \<^verbatim>\<open>height\<close> that is
  present but equal to \<open>0\<close> is treated exactly like a missing field: decoding the document
  gives the same result as decoding it without the field, and the camera state keeps its
  previous value for that field, so the document does not bring in a zero field of view
  or a zero resolution.
\<close>

theorem zero_optics_kept:
  "loadSceneFromJson (JObject (d\<lparr>j_camera := Some (cam\<lparr>j_fov := Some (Fin 0)\<rparr>)\<rparr>)) st =
     loadSceneFromJson (JObject (d\<lparr>j_camera := Some (cam\<lparr>j_fov := None\<rparr>)\<rparr>)) st \<and>
   loadSceneFromJson (JObject (d\<lparr>j_camera := Some (cam\<lparr>j_width := Some (Fin 0)\<rparr>)\<rparr>)) st =
     loadSceneFromJson (JObject (d\<lparr>j_camera := Some (cam\<lparr>j_width := None\<rparr>)\<rparr>)) st \<and>
   loadSceneFromJson (JObject (d\<lparr>j_camera := Some (cam\<lparr>j_height := Some (Fin 0)\<rparr>)\<rparr>)) st =
     loadSceneFromJson (JObject (d\<lparr>j_camera := Some (cam\<lparr>j_height := None\<rparr>)\<rparr>)) st \<and>
   (loadSceneFromJson (JObject d) st = Normal st' \<and> j_camera d = Some cam \<longrightarrow>
      (j_fov cam = Some (Fin 0) \<longrightarrow> cam_fov (cameraState st') = cam_fov (cameraState st)) \<and>
      (j_width cam = Some (Fin 0) \<longrightarrow> cam_width (cameraState st') = cam_width (cameraState st)) \<and>
      (j_height cam = Some (Fin 0) \<longrightarrow> cam_height (cameraState st') = cam_height (cameraState st)))"
proof -
  have a: "loadSceneFromJson (JObject (d\<lparr>j_camera := Some c1\<rparr>)) st =
           loadSceneFromJson (JObject (d\<lparr>j_camera := Some c2\<rparr>)) st"
    if "\<And>cs. load_camera c1 cs = load_camera c2 cs" for c1 c2
    using that by (simp add: loadSceneFromJson_def Let_def cong: completion.case_cong)
  have b: "cam_fov (cameraState st') = cam_fov (cameraState st)"
    if "loadSceneFromJson (JObject d) st = Normal st'" "j_camera d = Some cam"
       "j_fov cam = Some (Fin 0)"
    using load_camera_keeps(1) [OF loadSceneFromJson_camera [OF that(1,2)]] that(3) by simp
  have c: "cam_width (cameraState st') = cam_width (cameraState st)"
    if "loadSceneFromJson (JObject d) st = Normal st'" "j_camera d = Some cam"
       "j_width cam = Some (Fin 0)"
    using load_camera_keeps(2) [OF loadSceneFromJson_camera [OF that(1,2)]] that(3) by simp
  have e: "cam_height (cameraState st') = cam_height (cameraState st)"
    if "loadSceneFromJson (JObject d) st = Normal st'" "j_camera d = Some cam"
       "j_height cam = Some (Fin 0)"
    using load_camera_keeps(3) [OF loadSceneFromJson_camera [OF that(1,2)]] that(3) by simp
  show ?thesis
    using a [OF load_camera_zero(1)] a [OF load_camera_zero(2)] a [OF load_camera_zero(3)] b c e
    by blast
qed

theorem zero_optics_kept_witness:
  "\<exists>st'. loadSceneFromJson (JObject scenario_B_fov0) init_state = Normal st' \<and>
         j_camera scenario_B_fov0 =
           Some \<lparr>j_position = Some (Fin 0, Fin 0, Fin (- 5)), j_look_at = Some (Fin 0, Fin 0, Fin 0),
                 j_up = Some (Fin 0, Fin 1, Fin 0), j_fov = Some (Fin 0),
                 j_width = Some (Fin 400), j_height = Some (Fin 300)\<rparr> \<and>
         cam_fov (cameraState st') = Fin 60 \<and> cam_width (cameraState st') = Fin 400"
proof -
  have n: "(case loadSceneFromJson (JObject scenario_B_fov0) init_state of
              Normal s \<Rightarrow> cam_width (cameraState s) = Fin 400 | Threw s \<Rightarrow> False)"
    by code_simp
  then obtain st' where st': "loadSceneFromJson (JObject scenario_B_fov0) init_state = Normal st'"
    and w: "cam_width (cameraState st') = Fin 400"
    by (cases "loadSceneFromJson (JObject scenario_B_fov0) init_state") auto
  have c: "j_camera scenario_B_fov0 =
           Some \<lparr>j_position = Some (Fin 0, Fin 0, Fin (- 5)), j_look_at = Some (Fin 0, Fin 0, Fin 0),
                 j_up = Some (Fin 0, Fin 1, Fin 0), j_fov = Some (Fin 0),
                 j_width = Some (Fin 400), j_height = Some (Fin 300)\<rparr>"
    by (simp add: scenario_B_fov0_def scenario_B_def)
  have i: "cam_fov (cameraState init_state) = Fin 60"
    by (simp add: init_state_def)
  show ?thesis
    using zero_optics_kept [where d = scenario_B_fov0 and st = init_state and st' = st'] st' c i w
    by auto
qed

section \<open>Edits that do not parse\<close>

lemma parseNumber_fallback: "\<not> Number_isFinite parsed \<Longrightarrow> parseNumber parsed fallback = fallback"
  by (simp add: parseNumber_def)

text \<open>
  What the two parsers do discard. A field edit of an entity whose text \<^verbatim>\<open>parseFloat\<close>
  reads as NaN leaves the whole state as it was, for the position, radius, extent,
  intensity and direction fields. In the camera form \<^verbatim>\<open>parseNumber\<close> falls back to the
  prior value for every \<^verbatim>\<open>Number(value)\<close> that is not finite, so each coordinate and the
  field of view keep their prior value (width and height keep it after the rounding and
  the floor at 1 that the form applies to every value).
\<close>

theorem nan_edit_discarded:
  "(Number_isNaN parsed \<longrightarrow>
      setPosition a parsed st = st \<and> setRadius parsed st = st \<and> setExtents a parsed st = st \<and>
      setLightIntensity c parsed st = st \<and> setLightDirection a parsed st = st) \<and>
   (\<not> Number_isFinite parsed \<longrightarrow> parseNumber parsed fallback = fallback) \<and>
   (let cs = cameraState st; cs' = cameraState (updateCameraStateFromForm formData st) in
      (\<not> Number_isFinite (posX formData) \<longrightarrow> vx (cam_position cs') = vx (cam_position cs)) \<and>
      (\<not> Number_isFinite (posY formData) \<longrightarrow> vy (cam_position cs') = vy (cam_position cs)) \<and>
      (\<not> Number_isFinite (posZ formData) \<longrightarrow> vz (cam_position cs') = vz (cam_position cs)) \<and>
      (\<not> Number_isFinite (lookX formData) \<longrightarrow> vx (cam_lookAt cs') = vx (cam_lookAt cs)) \<and>
      (\<not> Number_isFinite (lookY formData) \<longrightarrow> vy (cam_lookAt cs') = vy (cam_lookAt cs)) \<and>
      (\<not> Number_isFinite (lookZ formData) \<longrightarrow> vz (cam_lookAt cs') = vz (cam_lookAt cs)) \<and>
      (\<not> Number_isFinite (upX formData) \<longrightarrow> vx (cam_up cs') = vx (cam_up cs)) \<and>
      (\<not> Number_isFinite (upY formData) \<longrightarrow> vy (cam_up cs') = vy (cam_up cs)) \<and>
      (\<not> Number_isFinite (upZ formData) \<longrightarrow> vz (cam_up cs') = vz (cam_up cs)) \<and>
      (\<not> Number_isFinite (f_fov formData) \<longrightarrow> cam_fov cs' = cam_fov cs) \<and>
      (\<not> Number_isFinite (f_width formData) \<longrightarrow>
         cam_width cs' = Math_max (Fin 1) (Math_round (cam_width cs))) \<and>
      (\<not> Number_isFinite (f_height formData) \<longrightarrow>
         cam_height cs' = Math_max (Fin 1) (Math_round (cam_height cs))))"
  by (simp add: setPosition_def setRadius_def setExtents_def setLightIntensity_def
      setLightDirection_def createNumberField_def parseNumber_def
      updateCameraStateFromForm_def Let_def)

theorem nan_edit_discarded_witness:
  "Number_isNaN NaN \<and> \<not> Number_isFinite PInf \<and>
   setRadius NaN (run [AddSphere] init_state) = run [AddSphere] init_state \<and>
   setPosition Y NaN (run [AddSphere] init_state) = run [AddSphere] init_state \<and>
   parseNumber PInf (Fin 60) = Fin 60 \<and>
   cameraState (updateCameraStateFromForm nan_form init_state) = cameraState init_state"
proof -
  have a: "Number_isNaN NaN" "\<not> Number_isFinite PInf" by simp_all
  have f: "\<not> Number_isFinite (posX nan_form)" "\<not> Number_isFinite (posY nan_form)"
    "\<not> Number_isFinite (posZ nan_form)" "\<not> Number_isFinite (lookX nan_form)"
    "\<not> Number_isFinite (lookY nan_form)" "\<not> Number_isFinite (lookZ nan_form)"
    "\<not> Number_isFinite (upX nan_form)" "\<not> Number_isFinite (upY nan_form)"
    "\<not> Number_isFinite (upZ nan_form)" "\<not> Number_isFinite (f_fov nan_form)"
    "\<not> Number_isFinite (f_width nan_form)" "\<not> Number_isFinite (f_height nan_form)"
    by (simp_all add: nan_form_def)
  have w: "Math_max (Fin 1) (Math_round (cam_width (cameraState init_state))) = cam_width (cameraState init_state)"
    "Math_max (Fin 1) (Math_round (cam_height (cameraState init_state))) = cam_height (cameraState init_state)"
    by code_simp+
  have "cameraState (updateCameraStateFromForm nan_form init_state) = cameraState init_state"
    using nan_edit_discarded [where st = init_state and formData = nan_form, THEN conjunct2, THEN conjunct2]
    by (simp add: Let_def f w camera_state.equality vec3.equality)
  then show ?thesis
    using nan_edit_discarded [where parsed = NaN and a = Y and st = "run [AddSphere] init_state"]
      nan_edit_discarded [where parsed = PInf and fallback = "Fin 60"] a
    by simp
qed

text \<open>
  Claim C8: a string committed in a numeric field that does not parse as a finite number
  is discarded and the property keeps its prior value, and no NaN or Infinity is ever
  applied to the canonical data, the visual handle or the camera state. Two commits end
  otherwise.

  The camera form reads its fields with \<^verbatim>\<open>Number(value)\<close>, and \<^verbatim>\<open>Number("")\<close> is 0. When
  the field \<^verbatim>\<open>posX\<close> is cleared, \<^verbatim>\<open>parseNumber\<close> finds 0 finite and the camera position
  moves from \<open>x = 8\<close> to \<open>x = 0\<close>; the prior value is lost. The number fields of an
  entity read the same text with \<^verbatim>\<open>parseFloat\<close>, which gives NaN, and discard the edit.

  The width callback of a cube sets \<^verbatim>\<open>mesh.scale.x = size.x / geometry.parameters.width\<close>.
  A cube imported with \<^verbatim>\<open>min[0] = max[0]\<close> has a box geometry of width 0 and is selected
  by the import; committing \<^verbatim>\<open>2\<close> in its Width field writes the size 2 to the canonical
  data and the scale \<^verbatim>\<open>2 / 0 = Infinity\<close> to the visual node.
\<close>

theorem invalid_edit_applied:
  "Number EmptyText = Fin 0 \<and> parseFloat EmptyText = NaN \<and>
   cam_position (cameraState init_state) = vec 8 6 8 \<and>
   cam_position (cameraState (run [CameraFormChange cleared_posX_form] init_state)) = vec 0 6 8 \<and>
   map_option j_position (j_camera (sceneJson (run [CameraFormChange cleared_posX_form] init_state))) =
     Some (Some (Fin 0, Fin 6, Fin 8)) \<and>
   run [AddSphere, PositionField X (parseFloat EmptyText)] init_state = run [AddSphere] init_state \<and>
   selectedEntity (run [ImportLoad (Some (JObject flat_cube))] init_state) = Some (''cube'', 2) \<and>
   map (\<lambda>e. geometry (mesh e)) (entities (run [ImportLoad (Some (JObject flat_cube))] init_state)) =
     [BoxGeometry (Fin 0) (Fin 1) (Fin 1)] \<and>
   map (\<lambda>e. scale (mesh e)) (entities (run [ImportLoad (Some (JObject flat_cube))] init_state)) =
     [vec 1 1 1] \<and>
   Number_isFinite (parseFloat (NumberText 2)) \<and>
   map data (entities (run [ImportLoad (Some (JObject flat_cube)),
                            SizeField X (parseFloat (NumberText 2))] init_state)) =
     [CubeData (vec 0 (1 / 2) (1 / 2)) (vec 2 1 1) (col 1 1 1)] \<and>
   map (\<lambda>e. scale (mesh e)) (entities (run [ImportLoad (Some (JObject flat_cube)),
                                             SizeField X (parseFloat (NumberText 2))] init_state)) =
     [\<lparr>vx = PInf, vy = Fin 1, vz = Fin 1\<rparr>]"
  by code_simp

section \<open>The registry functions, field by field\<close>

subsection \<open>Frames\<close>

lemma refreshSceneJson_fields [simp]:
  "entities (refreshSceneJson st) = entities st"
  "selectedEntity (refreshSceneJson st) = selectedEntity st"
  "idCounter (refreshSceneJson st) = idCounter st"
  "transform_object (refreshSceneJson st) = transform_object st"
  "disposed (refreshSceneJson st) = disposed st"
  "objectList (refreshSceneJson st) = objectList st"
  "scene_children (refreshSceneJson st) = scene_children st"
  "sceneJson (refreshSceneJson st) = buildSceneJson st"
  by (simp_all add: refreshSceneJson_def)

lemma ids_refreshSceneJson [simp]: "ids (refreshSceneJson st) = ids st"
  by (simp add: ids_def)

lemma selectEntity_fields [simp]:
  "entities (selectEntity i st) = entities st"
  "idCounter (selectEntity i st) = idCounter st"
  "disposed (selectEntity i st) = disposed st"
  "objectList (selectEntity i st) = objectList st"
  "scene_children (selectEntity i st) = scene_children st"
  "sceneJson (selectEntity i st) = sceneJson st"
  by (simp_all add: selectEntity_def split: option.splits)

lemma ids_selectEntity [simp]: "ids (selectEntity i st) = ids st"
  by (simp add: ids_def)

lemma find_entity_Some: "find_entity i st = Some e \<Longrightarrow> eid e = i \<and> e \<in> set (entities st)"
  by (auto simp: find_entity_def find_Some_iff)

lemma find_entity_None: "find_entity i st = None \<longleftrightarrow> i \<notin> set (ids st)"
  by (auto simp: find_entity_def find_None_iff ids_def)

lemma selectedEntity_selectEntity:
  "selectedEntity (selectEntity i st) =
     (case i of None \<Rightarrow> None | Some j \<Rightarrow> if j \<in> set (ids st) then Some j else None)"
proof (cases i)
  case None
  then show ?thesis by (simp add: selectEntity_def)
next
  case (Some j)
  show ?thesis
  proof (cases "find_entity j st")
    case None
    with \<open>i = Some j\<close> find_entity_None [of j st]
    show ?thesis by (simp add: selectEntity_def)
  next
    case (Some e)
    with \<open>i = Some j\<close> find_entity_Some [OF Some] find_entity_None [of j st]
    show ?thesis by (simp add: selectEntity_def)
  qed
qed

lemma transform_selectEntity [simp]:
  "transform_object (selectEntity i st) = selectedEntity (selectEntity i st)"
  by (simp add: selectEntity_def split: option.splits)

lemma registry_invariant_selectEntity:
  "registry_invariant st \<Longrightarrow> registry_invariant (selectEntity i st)"
  by (simp add: registry_invariant_def selectedEntity_selectEntity split: option.splits)

lemma update_entity_fields [simp]:
  "selectedEntity (update_entity i f st) = selectedEntity st"
  "idCounter (update_entity i f st) = idCounter st"
  "transform_object (update_entity i f st) = transform_object st"
  "disposed (update_entity i f st) = disposed st"
  "cameraState (update_entity i f st) = cameraState st"
  "objectList (update_entity i f st) = objectList st"
  "entities (update_entity i f st) = map (\<lambda>e. if eid e = i then f e else e) (entities st)"
  by (simp_all add: update_entity_def)

lemma ids_update_entity:
  "(\<And>e. eid (f e) = eid e) \<Longrightarrow> ids (update_entity i f st) = ids st"
  by (simp add: ids_def update_entity_def)

lemma map_eid_splice: "map eid (splice_entity i es) = remove1 i (map eid es)"
  by (induction es) auto

lemma set_splice: "set (splice_entity i es) \<subseteq> set es"
  by (induction es) auto

lemma removeEntity_fields:
  "entities (removeEntity e st) = splice_entity (eid e) (entities st)"
  "idCounter (removeEntity e st) = idCounter st"
  "selectedEntity (removeEntity e st) =
     (if selectedEntity st = Some (eid e) then None else selectedEntity st)"
  "transform_object (removeEntity e st) =
     (if selectedEntity st = Some (eid e) then None else transform_object st)"
  "disposed (removeEntity e st) = disposed st @ [(eid e, Geometry), (eid e, Material)]"
  "objectList (removeEntity e st) = filter (\<lambda>v. v \<noteq> eid e) (objectList st)"
  "scene_children (removeEntity e st) = removeAll (eid e) (scene_children st)"
  "sceneJson (removeEntity e st) = buildSceneJson (removeEntity e st)"
  by (simp_all add: removeEntity_def disposeObject_def Let_def refreshSceneJson_def buildSceneJson_def)

lemma ids_removeEntity: "ids (removeEntity e st) = remove1 (eid e) (ids st)"
  by (simp add: ids_def map_eid_splice removeEntity_fields)

lemma registry_invariant_removeEntity:
  assumes "registry_invariant st"
  shows "registry_invariant (removeEntity e st)"
proof -
  have d: "distinct (ids st)" using assms by (simp add: registry_invariant_def)
  have s: "set (remove1 (eid e) (ids st)) = set (ids st) - {eid e}"
    using d by simp
  show ?thesis
    using assms unfolding registry_invariant_def ids_removeEntity s
    by (auto simp: removeEntity_fields)
qed

lemma id_step_same:
  "ids st' = ids st \<Longrightarrow> idCounter st' = idCounter st \<Longrightarrow> id_step st st'"
  by (simp add: id_step_def)

lemma filter_remove1_distinct:
  assumes "distinct xs"
  shows "filter (\<lambda>i. i \<in> set (remove1 x xs)) xs = remove1 x xs"
proof -
  have "remove1 x xs = filter (\<lambda>i. i \<noteq> x) xs"
    using assms by (simp add: distinct_remove1_removeAll removeAll_filter_not_eq) metis
  moreover have "filter (\<lambda>i. i \<in> set (remove1 x xs)) xs = filter (\<lambda>i. i \<noteq> x) xs"
    using assms by (intro filter_cong) auto
  ultimately show ?thesis by simp
qed

lemma id_step_removeEntity:
  assumes "distinct (ids st)"
  shows "id_step st (removeEntity e st)"
  using filter_remove1_distinct [OF assms, of "eid e"]
  by (simp add: id_step_def ids_removeEntity removeEntity_fields)


subsection \<open>Create\<close>

lemma THREE_Color_white: "THREE_Color 0xffffff = col 1 1 1"
  by (simp add: THREE_Color_def col_def)

lemma create_pattern:
  assumes "eid e = (p, idCounter st + 1)"
  shows "refreshSceneJson (selectEntity (Some (eid e))
           (addListItem e (st\<lparr>idCounter := idCounter st + 1,
                               scene_children := scene_children st @ [eid e],
                               entities := entities st @ [e]\<rparr>))) = st' \<Longrightarrow>
         entities st' = entities st @ [e] \<and> idCounter st' = idCounter st + 1 \<and>
         selectedEntity st' = Some (eid e) \<and> transform_object st' = Some (eid e) \<and>
         disposed st' = disposed st \<and> cameraState st' = cameraState st \<and>
         objectList st' = objectList st @ [eid e] \<and> sceneJson st' = buildSceneJson st'"
proof -
  assume a: "refreshSceneJson (selectEntity (Some (eid e))
           (addListItem e (st\<lparr>idCounter := idCounter st + 1,
                               scene_children := scene_children st @ [eid e],
                               entities := entities st @ [e]\<rparr>))) = st'"
  have i: "eid e \<in> set (ids (addListItem e (st\<lparr>idCounter := idCounter st + 1,
                               scene_children := scene_children st @ [eid e],
                               entities := entities st @ [e]\<rparr>)))"
    by (simp add: ids_def addListItem_def)
  show ?thesis
    unfolding a [symmetric]
    using i
    by (simp add: selectedEntity_selectEntity)
       (simp add: addListItem_def refreshSceneJson_def buildSceneJson_def)
qed

lemma createSphereEntity_fields:
  "entities (createSphereEntity st) = entities st @ [default_sphere (idCounter st + 1)]"
  "idCounter (createSphereEntity st) = idCounter st + 1"
  "selectedEntity (createSphereEntity st) = Some (''sphere'', idCounter st + 1)"
  "transform_object (createSphereEntity st) = Some (''sphere'', idCounter st + 1)"
  "disposed (createSphereEntity st) = disposed st"
  "cameraState (createSphereEntity st) = cameraState st"
  "sceneJson (createSphereEntity st) = buildSceneJson (createSphereEntity st)"
  using create_pattern [of "default_sphere (idCounter st + 1)" "''sphere''" st "createSphereEntity st"]
  by (simp_all add: createSphereEntity_def generateId_def Let_def default_sphere_def vec_def)

lemma createCubeEntity_fields:
  "entities (createCubeEntity st) = entities st @ [default_cube (idCounter st + 1)]"
  "idCounter (createCubeEntity st) = idCounter st + 1"
  "selectedEntity (createCubeEntity st) = Some (''cube'', idCounter st + 1)"
  "transform_object (createCubeEntity st) = Some (''cube'', idCounter st + 1)"
  "disposed (createCubeEntity st) = disposed st"
  "cameraState (createCubeEntity st) = cameraState st"
  "sceneJson (createCubeEntity st) = buildSceneJson (createCubeEntity st)"
  using create_pattern [of "default_cube (idCounter st + 1)" "''cube''" st "createCubeEntity st"]
  by (simp_all add: createCubeEntity_def generateId_def Let_def default_cube_def vec_def)

lemma createLightEntity_fields:
  "entities (createLightEntity st) = entities st @ [default_light (idCounter st + 1)]"
  "idCounter (createLightEntity st) = idCounter st + 1"
  "selectedEntity (createLightEntity st) = Some (''light'', idCounter st + 1)"
  "transform_object (createLightEntity st) = Some (''light'', idCounter st + 1)"
  "disposed (createLightEntity st) = disposed st"
  "cameraState (createLightEntity st) = cameraState st"
  "sceneJson (createLightEntity st) = buildSceneJson (createLightEntity st)"
  using create_pattern [of "default_light (idCounter st + 1)" "''light''" st "createLightEntity st"]
  by (simp_all add: createLightEntity_def generateId_def Let_def default_light_def vec_def
      THREE_Color_white)

section \<open>The events, case by case\<close>

subsection \<open>Edits of one entity\<close>

lemma eid_move_to [simp]: "eid (move_to p e) = eid e"
  by (simp add: move_to_def updateEntityFromTransform_def split: entity_data.splits)

lemma eid_color_onChange [simp]: "eid (color_onChange hex e) = eid e"
  by (simp add: color_onChange_def split: entity_data.splits)

lemma eid_intensity_onChange [simp]: "eid (intensity_onChange c v e) = eid e"
  by (simp add: intensity_onChange_def Let_def split: entity_data.splits)

lemma eid_direction_onChange [simp]: "eid (direction_onChange a v e) = eid e"
  by (simp add: direction_onChange_def split: entity_data.splits)

lemma entity_edit_eid: "entity_edit f \<Longrightarrow> eid (f e) = eid e"
  by (auto simp: entity_edit_def)

lemma on_selected_cases:
  "on_selected k f st = st \<or> (\<exists>i. on_selected k f st = refreshSceneJson (update_entity i f st))"
proof (cases "selected_object st")
  case None
  then show ?thesis by (simp add: on_selected_def)
next
  case (Some e)
  show ?thesis
  proof (cases "kind e = k")
    case True
    with Some have "on_selected k f st = refreshSceneJson (update_entity (eid e) f st)"
      by (simp add: on_selected_def)
    then show ?thesis by blast
  next
    case False
    with Some show ?thesis by (simp add: on_selected_def)
  qed
qed

lemma createNumberField_cases:
  "createNumberField parsed onChange st = st \<or>
   createNumberField parsed onChange st = onChange parsed st"
  by (simp add: createNumberField_def)

lemma setEntityPosition_cases:
  "setEntityPosition u st = st \<or>
   (\<exists>i p. setEntityPosition u st = refreshSceneJson (update_entity i (move_to p) st))"
proof (cases "selected_object st")
  case None
  then show ?thesis by (simp add: setEntityPosition_def)
next
  case (Some sel)
  have "(\<lambda>e. updateEntityFromTransform (e\<lparr>mesh := (mesh e)\<lparr>position := p\<rparr>\<rparr>)) = move_to p" for p
    by (simp add: fun_eq_iff move_to_def)
  with Some have "setEntityPosition u st =
      refreshSceneJson (update_entity (eid sel) (move_to (u (position (mesh sel)))) st)"
    by (simp add: setEntityPosition_def Let_def)
  then show ?thesis by blast
qed

lemma setColor_cases:
  "setColor hex st = st \<or>
   (\<exists>i. setColor hex st = refreshSceneJson (update_entity i (color_onChange hex) st))"
proof (cases "selected_object st")
  case None
  then show ?thesis by (simp add: setColor_def)
next
  case (Some e)
  show ?thesis
  proof (cases "kind e = Light")
    case False
    with Some have "setColor hex st =
        refreshSceneJson (update_entity (eid e) (color_onChange hex) st)"
      by (simp add: setColor_def)
    then show ?thesis by blast
  next
    case True
    with Some show ?thesis by (simp add: setColor_def)
  qed
qed

lemma update_entity_compose:
  assumes "\<And>e. eid (g e) = eid e"
  shows "update_entity i f (update_entity i g st) = update_entity i (\<lambda>e. f (g e)) st"
  using assms by (simp add: update_entity_def comp_def)

lemma selected_object_update_entity:
  assumes "\<And>e. eid (f e) = eid e"
  shows "selected_object (update_entity j f st) =
         map_option (\<lambda>e. if eid e = j then f e else e) (selected_object st)"
  using assms
  by (simp add: selected_object_def update_entity_def find_entity_def
      find_update_entity split: option.splits)

lemma objectChange_cases:
  assumes "registry_invariant st"
  shows "objectChange p st = st \<or>
         (\<exists>i. objectChange p st = refreshSceneJson (update_entity i (move_to p) st))"
proof (cases "transform_object st")
  case None
  then show ?thesis by (simp add: objectChange_def)
next
  case (Some i)
  let ?mv = "\<lambda>e. e\<lparr>mesh := (mesh e)\<lparr>position := p\<rparr>\<rparr>"
  have "transform_object st = None \<or> transform_object st = selectedEntity st"
    using assms by (simp add: registry_invariant_def)
  with Some have sel: "selectedEntity st = Some i" by simp
  have "\<forall>i. selectedEntity st = Some i \<longrightarrow> i \<in> set (ids st)"
    using assms by (simp add: registry_invariant_def)
  with sel have live: "i \<in> set (ids st)" by blast
  obtain e where e: "find_entity i st = Some e"
    using live find_entity_None [of i st] by (cases "find_entity i st") auto
  have so: "selected_object st = Some e"
    using sel e by (simp add: selected_object_def)
  have "selected_object (update_entity i ?mv st) = Some (?mv e)"
    using find_entity_Some [OF e] so
    by (simp add: selected_object_update_entity)
  moreover have "update_entity i updateEntityFromTransform (update_entity i ?mv st) =
      update_entity i (move_to p) st"
    by (simp add: update_entity_compose) (simp add: move_to_def [abs_def])
  ultimately have "objectChange p st = refreshSceneJson (update_entity i (move_to p) st)"
    using Some find_entity_Some [OF e] by (simp add: objectChange_def Let_def)
  then show ?thesis by blast
qed

lemma edit_step:
  assumes "is_edit ev" and "registry_invariant st"
  shows "step ev st = st \<or>
         (\<exists>i f. entity_edit f \<and> step ev st = refreshSceneJson (update_entity i f st))"
proof (cases ev)
  case (PositionField a v)
  then show ?thesis
    using createNumberField_cases [of v "\<lambda>v. setEntityPosition (axisUpdater a v)" st]
      setEntityPosition_cases [of "axisUpdater a v" st]
    unfolding step.simps PositionField setPosition_def entity_edit_def by metis
next
  case (RadiusField v)
  then show ?thesis
    using createNumberField_cases [of v "\<lambda>v. on_selected Sphere (radius_onChange v)" st]
      on_selected_cases [of Sphere "radius_onChange v" st]
    unfolding step.simps RadiusField setRadius_def entity_edit_def by metis
next
  case (SizeField a v)
  then show ?thesis
    using createNumberField_cases [of v "\<lambda>v. on_selected Cube (size_onChange a v)" st]
      on_selected_cases [of Cube "size_onChange a v" st]
    unfolding step.simps SizeField setExtents_def entity_edit_def by metis
next
  case (ColorField hex)
  then show ?thesis
    using setColor_cases [of hex st]
    unfolding step.simps ColorField entity_edit_def by metis
next
  case (IntensityField c v)
  then show ?thesis
    using createNumberField_cases [of v "\<lambda>v. on_selected Light (intensity_onChange c v)" st]
      on_selected_cases [of Light "intensity_onChange c v" st]
    unfolding step.simps IntensityField setLightIntensity_def entity_edit_def by metis
next
  case (DirectionField a v)
  then show ?thesis
    using createNumberField_cases [of v "\<lambda>v. on_selected Light (direction_onChange a v)" st]
      on_selected_cases [of Light "direction_onChange a v" st]
    unfolding step.simps DirectionField setLightDirection_def entity_edit_def by metis
next
  case (ObjectChange p)
  then show ?thesis
    using objectChange_cases [OF assms(2), of p]
    unfolding step.simps ObjectChange entity_edit_def by metis
qed (use assms in auto)

lemma edited_fields:
  assumes "entity_edit f"
  shows "ids (refreshSceneJson (update_entity i f st)) = ids st"
    and "idCounter (refreshSceneJson (update_entity i f st)) = idCounter st"
    and "selectedEntity (refreshSceneJson (update_entity i f st)) = selectedEntity st"
    and "transform_object (refreshSceneJson (update_entity i f st)) = transform_object st"
    and "disposed (refreshSceneJson (update_entity i f st)) = disposed st"
  using entity_edit_eid [OF assms] by (simp_all add: ids_update_entity)

subsection \<open>Delete, select, camera\<close>

lemma deleteButton_click_cases:
  "deleteButton_click st = st \<or>
   (\<exists>e\<in>set (entities st). selectedEntity st = Some (eid e) \<and>
      deleteButton_click st = removeEntity e (selectEntity None st))"
proof (cases "selected_object st")
  case None
  then show ?thesis by (simp add: deleteButton_click_def)
next
  case (Some e)
  then have "e \<in> set (entities st)" "selectedEntity st = Some (eid e)"
    by (auto simp: selected_object_def split: option.splits dest: find_entity_Some)
  with Some show ?thesis by (simp add: deleteButton_click_def) blast
qed

lemma pointerdown_cases:
  "pointerdown hit st = st \<or> (\<exists>i. pointerdown hit st = selectEntity i st)"
  by (cases hit; cases "find_entity (the hit) st") (simp_all add: pointerdown_def, blast)

lemma updateCameraStateFromForm_fields [simp]:
  "entities (updateCameraStateFromForm fd st) = entities st"
  "idCounter (updateCameraStateFromForm fd st) = idCounter st"
  "selectedEntity (updateCameraStateFromForm fd st) = selectedEntity st"
  "transform_object (updateCameraStateFromForm fd st) = transform_object st"
  "disposed (updateCameraStateFromForm fd st) = disposed st"
  by (simp_all add: updateCameraStateFromForm_def Let_def)


subsection \<open>Import\<close>

lemma fold_splice_all: "fold (\<lambda>e. splice_entity (eid e)) es (es @ ys) = ys"
  by (induction es) simp_all

lemma entities_clear:
  "entities (fold removeEntity es st) = fold (\<lambda>e. splice_entity (eid e)) es (entities st)"
  by (induction es arbitrary: st) (simp_all add: removeEntity_fields)

lemma idCounter_clear [simp]: "idCounter (fold removeEntity es st) = idCounter st"
  by (induction es arbitrary: st) (simp_all add: removeEntity_fields)

lemma selectedEntity_clear:
  "selectedEntity (fold removeEntity es st) =
     (if selectedEntity st \<in> Some ` eid ` set es then None else selectedEntity st)"
  by (induction es arbitrary: st) (auto simp: removeEntity_fields)

lemma transform_clear:
  "transform_object st = None \<or> transform_object st = selectedEntity st \<Longrightarrow>
   transform_object (fold removeEntity es st) = None \<or>
   transform_object (fold removeEntity es st) = selectedEntity (fold removeEntity es st)"
  by (induction es arbitrary: st) (auto simp: removeEntity_fields)

lemma cleared:
  assumes "registry_invariant st"
  shows "entities (fold removeEntity (entities st) st) = []"
    and "selectedEntity (fold removeEntity (entities st) st) = None"
    and "transform_object (fold removeEntity (entities st) st) = None"
proof -
  show e: "entities (fold removeEntity (entities st) st) = []"
    using fold_splice_all [of "entities st" "[]"] by (simp add: entities_clear)
  have "\<forall>i. selectedEntity st = Some i \<longrightarrow> i \<in> set (ids st)"
    using assms by (simp add: registry_invariant_def)
  then have "selectedEntity st = None \<or> selectedEntity st \<in> Some ` eid ` set (entities st)"
    by (cases "selectedEntity st") (auto simp: ids_def)
  then show s: "selectedEntity (fold removeEntity (entities st) st) = None"
    by (auto simp: selectedEntity_clear)
  have "transform_object st = None \<or> transform_object st = selectedEntity st"
    using assms by (simp add: registry_invariant_def)
  from transform_clear [OF this, of "entities st"] s
  show "transform_object (fold removeEntity (entities st) st) = None" by simp
qed

lemma grows_refl: "grows st st"
  by (simp add: grows_def)

lemma grows_trans:
  assumes "grows a b" and "grows b c"
  shows "grows a c"
proof -
  obtain n1 where n1: "entities b = entities a @ n1" "distinct (map eid n1)"
    "\<forall>e\<in>set n1. idCounter a < snd (eid e) \<and> snd (eid e) \<le> idCounter b"
    "idCounter a \<le> idCounter b" "selectedEntity b = selectedEntity a"
    "transform_object b = transform_object a" "cameraState b = cameraState a"
    "disposed b = disposed a"
    using assms(1) unfolding grows_def by blast
  obtain n2 where n2: "entities c = entities b @ n2" "distinct (map eid n2)"
    "\<forall>e\<in>set n2. idCounter b < snd (eid e) \<and> snd (eid e) \<le> idCounter c"
    "idCounter b \<le> idCounter c" "selectedEntity c = selectedEntity b"
    "transform_object c = transform_object b" "cameraState c = cameraState b"
    "disposed c = disposed b"
    using assms(2) unfolding grows_def by blast
  have d: "distinct (map eid (n1 @ n2))"
    using n1(2,3) n2(2,3) by fastforce
  have b: "\<forall>e\<in>set (n1 @ n2). idCounter a < snd (eid e) \<and> snd (eid e) \<le> idCounter c"
    using n1(3,4) n2(3,4) by fastforce
  show ?thesis
    unfolding grows_def
    by (rule exI [of _ "n1 @ n2"]) (use n1 n2 d b in simp)
qed

lemma grows_load_object: "grows st (completion_state (load_object obj st))"
proof (cases obj)
  case (SphereDoc center radius color)
  show ?thesis
  proof (cases "color = None \<or> center = None")
    case True
    then show ?thesis using SphereDoc by (auto simp: grows_refl split: option.splits)
  next
    case False
    then obtain c ctr where "color = Some c" "center = Some ctr" by auto
    then show ?thesis
      using SphereDoc
      by (simp add: generateId_def Let_def grows_def addListItem_def)
  qed
next
  case (CubeDoc mn mx color)
  show ?thesis
  proof (cases "color = None \<or> mn = None \<or> mx = None")
    case True
    then show ?thesis using CubeDoc by (auto simp: grows_refl split: option.splits prod.splits)
  next
    case False
    then obtain c a b where "color = Some c" "mn = Some a" "mx = Some b" by auto
    then show ?thesis
      using CubeDoc
      by (cases a; cases b) (simp add: generateId_def Let_def grows_def addListItem_def)
  qed
next
  case (OtherObj t)
  then show ?thesis by (simp add: grows_refl)
qed

lemma grows_load_objects: "grows st (completion_state (load_objects os st))"
proof (induction os arbitrary: st)
  case Nil
  then show ?case by (simp add: grows_refl)
next
  case (Cons obj os)
  show ?case
  proof (cases "load_object obj st")
    case (Normal s)
    with grows_load_object [of st obj] Cons [of s] show ?thesis
      by (auto intro: grows_trans)
  next
    case (Threw s)
    with grows_load_object [of st obj] show ?thesis by simp
  qed
qed

lemma grows_load_light: "grows st (load_light l st)"
proof (cases l)
  case (PointDoc pos intensity direction)
  then show ?thesis
    by (simp add: generateId_def Let_def grows_def addListItem_def)
next
  case (OtherLight t)
  then show ?thesis by (simp add: grows_refl)
qed

lemma grows_load_lights: "grows st (fold load_light ls st)"
proof (induction ls arbitrary: st)
  case Nil
  then show ?case by (simp add: grows_refl)
next
  case (Cons l ls)
  from grows_load_light [of st l] Cons [of "load_light l st"] show ?case
    by (auto intro: grows_trans)
qed

text \<open>What grows from an empty registry satisfies the invariant.\<close>

lemma grows_from_empty:
  assumes "grows base mid" and "entities base = []" and "selectedEntity base = None"
    and "transform_object base = None"
  shows "distinct (ids mid)"
    and "\<forall>i\<in>set (ids mid). idCounter base < snd i \<and> snd i \<le> idCounter mid"
    and "idCounter base \<le> idCounter mid"
    and "registry_invariant mid"
proof -
  obtain n where n: "entities mid = entities base @ n" "distinct (map eid n)"
    "\<forall>e\<in>set n. idCounter base < snd (eid e) \<and> snd (eid e) \<le> idCounter mid"
    "idCounter base \<le> idCounter mid" "selectedEntity mid = selectedEntity base"
    "transform_object mid = transform_object base"
    using assms(1) unfolding grows_def by blast
  show "distinct (ids mid)" using n assms by (simp add: ids_def)
  show b: "\<forall>i\<in>set (ids mid). idCounter base < snd i \<and> snd i \<le> idCounter mid"
    using n assms by (auto simp: ids_def)
  show "idCounter base \<le> idCounter mid" by (rule n(4))
  show "registry_invariant mid"
    unfolding registry_invariant_def using n assms b by (auto simp: ids_def)
qed


lemma loadSceneFromJson_shape:
  "\<exists>cs mid. grows ((fold removeEntity (entities st) st)\<lparr>cameraState := cs\<rparr>) mid \<and>
      (completion_state (loadSceneFromJson jdata st) = mid \<or>
       (\<exists>i. completion_state (loadSceneFromJson jdata st) = refreshSceneJson (selectEntity i mid)))"
proof -
  let ?st0 = "fold removeEntity (entities st) st"
  have same: "?st0\<lparr>cameraState := cameraState ?st0\<rparr> = ?st0" by simp
  show ?thesis
  proof (cases jdata)
    case JNull
    have "completion_state (loadSceneFromJson jdata st) = ?st0"
      using JNull by (simp add: loadSceneFromJson_def)
    with grows_refl [of ?st0] same show ?thesis by metis
  next
    case (JObject d)
    let ?cam = "case j_camera d of None \<Rightarrow> Normal (cameraState ?st0)
                | Some cam \<Rightarrow> load_camera cam (cameraState ?st0)"
    show ?thesis
    proof (cases ?cam)
      case (Threw cs)
      have "completion_state (loadSceneFromJson jdata st) = ?st0\<lparr>cameraState := cs\<rparr>"
        using JObject Threw by (simp add: loadSceneFromJson_def)
      with grows_refl [of "?st0\<lparr>cameraState := cs\<rparr>"] show ?thesis by metis
    next
      case (Normal cs)
      let ?b = "?st0\<lparr>cameraState := cs\<rparr>"
      let ?os = "case j_objects d of None \<Rightarrow> [] | Some os \<Rightarrow> os"
      let ?ls = "case j_lights d of None \<Rightarrow> [] | Some ls \<Rightarrow> ls"
      show ?thesis
      proof (cases "load_objects ?os ?b")
        case (Threw st2)
        have "completion_state (loadSceneFromJson jdata st) = st2"
          using JObject Normal Threw by (simp add: loadSceneFromJson_def)
        moreover have "grows ?b st2"
          using grows_load_objects [of ?b ?os] Threw by simp
        ultimately show ?thesis by metis
      next
        case st2: (Normal st2)
        let ?st3 = "fold load_light ?ls st2"
        have "grows ?b st2"
          using grows_load_objects [of ?b ?os] st2 by simp
        then have g: "grows ?b ?st3"
          using grows_load_lights [of st2 ?ls] by (rule grows_trans)
        have "\<exists>i. completion_state (loadSceneFromJson jdata st) =
                 refreshSceneJson (selectEntity i ?st3)"
          using JObject Normal st2 by (simp add: loadSceneFromJson_def Let_def) blast
        with g show ?thesis by metis
      qed
    qed
  qed
qed

lemma registry_invariant_refreshSceneJson [simp]:
  "registry_invariant (refreshSceneJson st) = registry_invariant st"
  by (simp add: registry_invariant_def)

lemma import_invariants:
  fixes jdata :: json and st :: state
  defines "st' \<equiv> completion_state (loadSceneFromJson jdata st)"
  assumes "registry_invariant st"
  shows "registry_invariant st'"
    and "idCounter st \<le> idCounter st'"
    and "\<forall>i\<in>set (ids st'). idCounter st < snd i \<and> snd i \<le> idCounter st'"
proof -
  obtain cs mid where cm:
    "grows ((fold removeEntity (entities st) st)\<lparr>cameraState := cs\<rparr>) mid"
    "st' = mid \<or> (\<exists>i. st' = refreshSceneJson (selectEntity i mid))"
    using loadSceneFromJson_shape [of st jdata] unfolding st'_def by blast
  define base where "base = (fold removeEntity (entities st) st)\<lparr>cameraState := cs\<rparr>"
  have bm: "entities base = []" "selectedEntity base = None"
    "transform_object base = None" "idCounter base = idCounter st" "grows base mid"
    "st' = mid \<or> (\<exists>i. st' = refreshSceneJson (selectEntity i mid))"
    using cleared [OF assms(2)] cm by (simp_all add: base_def)
  note g = grows_from_empty [OF bm(5) bm(1) bm(2) bm(3)]
  from bm(6) show "registry_invariant st'"
    using g(4) by (auto simp: registry_invariant_selectEntity)
  from bm(6) show "idCounter st \<le> idCounter st'"
    using g(3) bm(4) by auto
  from bm(6) show "\<forall>i\<in>set (ids st'). idCounter st < snd i \<and> snd i \<le> idCounter st'"
    using g(2) bm(4) by fastforce
qed

subsection \<open>Every event keeps the invariant\<close>

lemma registry_invariant_init: "registry_invariant init_state"
  by (simp add: registry_invariant_def init_state_def ids_def refreshSceneJson_def)

lemma registry_invariant_push:
  assumes "registry_invariant st" and "entities st' = entities st @ [e]"
    and "eid e = (p, idCounter st + 1)" and "idCounter st' = idCounter st + 1"
    and "selectedEntity st' = Some (eid e)" and "transform_object st' = Some (eid e)"
  shows "registry_invariant st'" and "id_step st st'"
proof -
  have old: "\<forall>i\<in>set (ids st). snd i \<le> idCounter st" "distinct (ids st)"
    using assms(1) by (simp_all add: registry_invariant_def)
  then have fresh: "eid e \<notin> set (ids st)"
    using assms(3) by auto
  have i: "ids st' = ids st @ [eid e]"
    using assms(2) by (simp add: ids_def)
  show "registry_invariant st'"
    unfolding registry_invariant_def i using old fresh assms(3-6) by auto
  have "filter (\<lambda>i. i \<in> set (ids st @ [eid e])) (ids st) = ids st"
    by (simp add: filter_id_conv)
  then show "id_step st st'"
    unfolding id_step_def i using assms(3,4) by simp
qed

lemma step_invariants:
  assumes "registry_invariant st"
  shows "registry_invariant (step ev st) \<and> id_step st (step ev st)"
proof (cases "is_edit ev")
  case True
  from edit_step [OF True assms] show ?thesis
  proof
    assume "step ev st = st"
    then show ?thesis using assms by (simp add: id_step_same)
  next
    assume "\<exists>i f. entity_edit f \<and> step ev st = refreshSceneJson (update_entity i f st)"
    then obtain i f where f: "entity_edit f"
      and s: "step ev st = refreshSceneJson (update_entity i f st)" by blast
    show ?thesis
      unfolding s using assms edited_fields [OF f, of i st]
      by (simp add: registry_invariant_def id_step_same)
  qed
next
  case False
  show ?thesis
  proof (cases ev)
    case AddSphere
    show ?thesis
      unfolding AddSphere step.simps
      by (intro conjI registry_invariant_push [OF assms, of _ "default_sphere (idCounter st + 1)" "''sphere''"])
         (simp_all add: createSphereEntity_fields default_sphere_def)
  next
    case AddCube
    show ?thesis
      unfolding AddCube step.simps
      by (intro conjI registry_invariant_push [OF assms, of _ "default_cube (idCounter st + 1)" "''cube''"])
         (simp_all add: createCubeEntity_fields default_cube_def)
  next
    case AddLight
    show ?thesis
      unfolding AddLight step.simps
      by (intro conjI registry_invariant_push [OF assms, of _ "default_light (idCounter st + 1)" "''light''"])
         (simp_all add: createLightEntity_fields default_light_def)
  next
    case (ListChange i)
    then show ?thesis
      using assms by (simp add: registry_invariant_selectEntity id_step_same)
  next
    case (PointerDown hit)
    from pointerdown_cases [of hit st] show ?thesis
      unfolding PointerDown step.simps
      using assms by (auto simp: registry_invariant_selectEntity id_step_same)
  next
    case DeleteClick
    from deleteButton_click_cases [of st] show ?thesis
    proof
      assume "deleteButton_click st = st"
      then show ?thesis using DeleteClick assms by (simp add: id_step_same)
    next
      assume "\<exists>e\<in>set (entities st). selectedEntity st = Some (eid e) \<and>
                deleteButton_click st = removeEntity e (selectEntity None st)"
      then obtain e where e: "deleteButton_click st = removeEntity e (selectEntity None st)"
        by blast
      have r: "registry_invariant (selectEntity None st)"
        using assms by (rule registry_invariant_selectEntity)
      have d: "distinct (ids (selectEntity None st))"
        using assms by (simp add: registry_invariant_def)
      have "id_step (selectEntity None st) (removeEntity e (selectEntity None st))"
        using d by (rule id_step_removeEntity)
      then have "id_step st (removeEntity e (selectEntity None st))"
        by (simp add: id_step_def)
      with registry_invariant_removeEntity [OF r, of e] show ?thesis
        using DeleteClick e by simp
    qed
  next
    case (CameraFormChange fd)
    then show ?thesis
      using assms by (simp add: registry_invariant_def id_step_same ids_def)
  next
    case (ImportLoad parsed)
    show ?thesis
    proof (cases parsed)
      case None
      then show ?thesis
        using ImportLoad assms by (simp add: reader_onload_def id_step_same)
    next
      case (Some jdata)
      let ?st' = "completion_state (loadSceneFromJson jdata st)"
      have s: "step ev st = ?st'"
        using ImportLoad Some
        by (simp add: reader_onload_def split: completion.splits)
      note i = import_invariants [OF assms, of jdata]
      have old: "\<forall>i\<in>set (ids st). snd i \<le> idCounter st"
        using assms by (simp add: registry_invariant_def)
      have "filter (\<lambda>i. i \<in> set (ids ?st')) (ids st) = []"
        using old i(3) by (force simp: filter_empty_conv)
      then have "id_step st ?st'"
        unfolding id_step_def using i(2,3) by simp
      with i(1) s show ?thesis by simp
    qed
  qed (use False in auto)
qed

lemma run_Nil [simp]: "run [] st = st"
  by (simp add: run_def)

lemma run_Cons [simp]: "run (ev # evs) st = run evs (step ev st)"
  by (simp add: run_def)

lemma run_snoc [simp]: "run (evs @ [ev]) st = step ev (run evs st)"
  by (simp add: run_def)

lemma registry_invariant_run:
  "registry_invariant st \<Longrightarrow> registry_invariant (run evs st)"
  by (induction evs arbitrary: st) (simp_all add: step_invariants)

lemma idCounter_run_mono:
  "registry_invariant st \<Longrightarrow> idCounter st \<le> idCounter (run evs st)"
proof (induction evs arbitrary: st)
  case Nil
  then show ?case by simp
next
  case (Cons ev evs)
  from step_invariants [OF Cons.prems, of ev]
  have "registry_invariant (step ev st)" "idCounter st \<le> idCounter (step ev st)"
    by (simp_all add: id_step_def)
  with Cons.IH [of "step ev st"] show ?case by simp
qed

lemma ever_live_bound:
  "registry_invariant st \<Longrightarrow> \<forall>i\<in>ever_live evs st. snd i \<le> idCounter (run evs st)"
proof (induction evs arbitrary: st)
  case Nil
  then show ?case by (simp add: registry_invariant_def)
next
  case (Cons ev evs)
  from step_invariants [OF Cons.prems, of ev]
  have r: "registry_invariant (step ev st)" and m: "idCounter st \<le> idCounter (step ev st)"
    by (simp_all add: id_step_def)
  have "\<forall>i\<in>set (ids st). snd i \<le> idCounter st"
    using Cons.prems by (simp add: registry_invariant_def)
  with m idCounter_run_mono [OF r, of evs] Cons.IH [OF r] show ?case
    by fastforce
qed

section \<open>Identifiers\<close>

lemma at_most_one_with_id:
  "distinct (map eid es) \<Longrightarrow> length (filter (\<lambda>e. eid e = i) es) \<le> 1"
proof (induction es)
  case Nil
  then show ?case by simp
next
  case (Cons e es)
  show ?case
  proof (cases "eid e = i")
    case True
    with Cons.prems have "filter (\<lambda>e. eid e = i) es = []"
      by (auto simp: filter_empty_conv image_iff)
    with True show ?thesis by simp
  next
    case False
    with Cons show ?thesis by simp
  qed
qed

text \<open>
  Claim C5. After every sequence of events (creates and deletes among them) no two live
  entities share an id. Across every further event the counter does not decrease, the
  ids of the entities that stay keep their places, and every id that becomes live lies
  above the counter and was never live before, also when its earlier bearer was deleted.
  No write of the property form or of the gizmo changes the id of an entity.
\<close>

theorem ids_unique_never_reused:
  "let st = run evs init_state; st' = step ev st in
     distinct (ids st) \<and> id_step st st' \<and>
     (\<forall>i\<in>set (ids st'). i \<in> set (ids st) \<or> i \<notin> ever_live evs init_state \<and> idCounter st < snd i) \<and>
     (entity_edit f \<longrightarrow> eid (f e) = eid e)"
proof -
  let ?st = "run evs init_state"
  let ?st' = "step ev ?st"
  have inv: "registry_invariant ?st"
    using registry_invariant_init by (rule registry_invariant_run)
  then have d: "distinct (ids ?st)"
    by (simp add: registry_invariant_def)
  have s: "id_step ?st ?st'"
    using step_invariants [OF inv, of ev] by simp
  then obtain new where new: "ids ?st' = filter (\<lambda>i. i \<in> set (ids ?st')) (ids ?st) @ new"
    "\<forall>i\<in>set new. idCounter ?st < snd i \<and> snd i \<le> idCounter ?st'"
    unfolding id_step_def by blast
  have b: "\<forall>i\<in>ever_live evs init_state. snd i \<le> idCounter ?st"
    using registry_invariant_init by (rule ever_live_bound)
  have "i \<in> set (ids ?st) \<or> i \<notin> ever_live evs init_state \<and> idCounter ?st < snd i"
    if "i \<in> set (ids ?st')" for i
  proof -
    from that new(1) have "i \<in> set (filter (\<lambda>i. i \<in> set (ids ?st')) (ids ?st)) \<or> i \<in> set new"
      by (metis Un_iff set_append)
    then show ?thesis
    proof
      assume "i \<in> set (filter (\<lambda>i. i \<in> set (ids ?st')) (ids ?st))"
      then show ?thesis by simp
    next
      assume "i \<in> set new"
      with new(2) have "idCounter ?st < snd i" by blast
      with b show ?thesis by fastforce
    qed
  qed
  with d s show ?thesis by (simp add: Let_def entity_edit_eid)
qed

theorem ids_unique_never_reused_witness:
  "ids (run [AddSphere, AddCube, DeleteClick] init_state) = [(''sphere'', 2)] \<and>
   ids (step AddLight (run [AddSphere, AddCube, DeleteClick] init_state)) =
     [(''sphere'', 2), (''light'', 4)] \<and>
   (''light'', 4) \<notin> ever_live [AddSphere, AddCube, DeleteClick] init_state \<and>
   idCounter (run [AddSphere, AddCube, DeleteClick] init_state) = 3"
proof -
  have a: "ids (run [AddSphere, AddCube, DeleteClick] init_state) = [(''sphere'', 2)]"
    by code_simp
  have b: "ids (step AddLight (run [AddSphere, AddCube, DeleteClick] init_state)) =
     [(''sphere'', 2), (''light'', 4)]"
    by code_simp
  have c: "idCounter (run [AddSphere, AddCube, DeleteClick] init_state) = 3"
    by code_simp
  show ?thesis
    using ids_unique_never_reused [of "[AddSphere, AddCube, DeleteClick]" AddLight] a b c
    by (simp add: Let_def)
qed

section \<open>Selection\<close>

text \<open>
  Claim C7. In every reachable state the selection, if any, is the id of exactly one live
  entity; selecting an id that names no live entity, or \<^verbatim>\<open>null\<close>, clears the selection
  without an error; removing the selected entity clears the selection, and so does the
  delete button.
\<close>

theorem selection_is_live:
  "let st = run evs init_state in
     (\<forall>i. selectedEntity st = Some i \<longrightarrow>
        i \<in> set (ids st) \<and> length (filter (\<lambda>e. eid e = i) (entities st)) = 1) \<and>
     (i \<notin> set (ids st) \<longrightarrow> selectedEntity (selectEntity (Some i) st) = None) \<and>
     selectedEntity (selectEntity None st) = None \<and>
     (\<forall>e\<in>set (entities st). selectedEntity st = Some (eid e) \<longrightarrow>
        selectedEntity (removeEntity e st) = None) \<and>
     selectedEntity (deleteButton_click st) = None"
proof -
  let ?st = "run evs init_state"
  have inv: "registry_invariant ?st"
    using registry_invariant_init by (rule registry_invariant_run)
  have live: "\<forall>i. selectedEntity ?st = Some i \<longrightarrow> i \<in> set (ids ?st)"
    and d: "distinct (ids ?st)"
    using inv by (simp_all add: registry_invariant_def)
  have one: "length (filter (\<lambda>e. eid e = i) (entities ?st)) = 1" if "i \<in> set (ids ?st)" for i
  proof -
    have "filter (\<lambda>e. eid e = i) (entities ?st) \<noteq> []"
      using that by (auto simp: ids_def filter_empty_conv)
    then have "length (filter (\<lambda>e. eid e = i) (entities ?st)) \<noteq> 0" by simp
    moreover have "length (filter (\<lambda>e. eid e = i) (entities ?st)) \<le> 1"
      using at_most_one_with_id [of "entities ?st" i] d by (simp add: ids_def)
    ultimately show ?thesis by linarith
  qed
  have del: "selectedEntity (deleteButton_click ?st) = None"
  proof (cases "selected_object ?st")
    case None
    have "selectedEntity ?st = None"
    proof (cases "selectedEntity ?st")
      case (Some j)
      with live have "j \<in> set (ids ?st)" by blast
      with None Some find_entity_None [of j ?st] show ?thesis
        by (simp add: selected_object_def)
    qed simp
    with None show ?thesis by (simp add: deleteButton_click_def)
  next
    case (Some e)
    then show ?thesis
      by (simp add: deleteButton_click_def removeEntity_fields selectedEntity_selectEntity)
  qed
  show ?thesis
    using live one del
    by (simp add: Let_def selectedEntity_selectEntity removeEntity_fields)
qed

theorem selection_is_live_witness:
  "selectedEntity (run [AddSphere, AddCube] init_state) = Some (''cube'', 3) \<and>
   (''cube'', 3) \<in> set (ids (run [AddSphere, AddCube] init_state)) \<and>
   (''mesh'', 7) \<notin> set (ids (run [AddSphere, AddCube] init_state)) \<and>
   selectedEntity (selectEntity (Some (''mesh'', 7)) (run [AddSphere, AddCube] init_state)) = None \<and>
   selectedEntity (deleteButton_click (run [AddSphere, AddCube] init_state)) = None"
proof -
  have a: "selectedEntity (run [AddSphere, AddCube] init_state) = Some (''cube'', 3)"
    by code_simp
  have b: "ids (run [AddSphere, AddCube] init_state) = [(''sphere'', 2), (''cube'', 3)]"
    by code_simp
  show ?thesis
    using selection_is_live [of "[AddSphere, AddCube]" "(''mesh'', 7)"] a b
    by (simp add: Let_def)
qed

section \<open>Origins of entities and released resources\<close>

subsection \<open>Where the entities of the next state come from\<close>

lemma entities_step_cases:
  assumes "registry_invariant st" and "\<not> is_import ev" and "e' \<in> set (entities (step ev st))"
  shows "e' \<in> set (entities st) \<or>
         (\<exists>f e. entity_edit f \<and> e \<in> set (entities st) \<and> e' = f e) \<or>
         (\<exists>n. e' = default_sphere n \<or> e' = default_cube n \<or> e' = default_light n)"
proof (cases "is_edit ev")
  case True
  from edit_step [OF True assms(1)] show ?thesis
  proof
    assume "step ev st = st"
    with assms(3) show ?thesis by simp
  next
    assume "\<exists>i f. entity_edit f \<and> step ev st = refreshSceneJson (update_entity i f st)"
    then obtain i f where f: "entity_edit f"
      and s: "step ev st = refreshSceneJson (update_entity i f st)" by blast
    from assms(3) have "e' \<in> set (entities st) \<or> (\<exists>e\<in>set (entities st). e' = f e)"
      unfolding s by auto
    with f show ?thesis by blast
  qed
next
  case False
  show ?thesis
  proof (cases ev)
    case AddSphere
    with assms(3) show ?thesis by (auto simp: createSphereEntity_fields)
  next
    case AddCube
    with assms(3) show ?thesis by (auto simp: createCubeEntity_fields)
  next
    case AddLight
    with assms(3) show ?thesis by (auto simp: createLightEntity_fields)
  next
    case (ListChange i)
    with assms(3) show ?thesis by simp
  next
    case (PointerDown hit)
    with assms(3) pointerdown_cases [of hit st] show ?thesis by auto
  next
    case DeleteClick
    from deleteButton_click_cases [of st] show ?thesis
    proof
      assume "deleteButton_click st = st"
      with assms(3) DeleteClick show ?thesis by simp
    next
      assume "\<exists>e\<in>set (entities st). selectedEntity st = Some (eid e) \<and>
                deleteButton_click st = removeEntity e (selectEntity None st)"
      then obtain e where "deleteButton_click st = removeEntity e (selectEntity None st)"
        by blast
      with assms(3) DeleteClick have "e' \<in> set (splice_entity (eid e) (entities st))"
        by (simp add: removeEntity_fields)
      with set_splice [of "eid e" "entities st"] show ?thesis by blast
    qed
  next
    case (CameraFormChange fd)
    with assms(3) show ?thesis by simp
  next
    case (ImportLoad parsed)
    with assms(2) show ?thesis by simp
  qed (use False in auto)
qed

subsection \<open>Released resources\<close>

lemma disposed_clear:
  "disposed (fold removeEntity es st) =
     disposed st @ concat (map (\<lambda>e. [(eid e, Geometry), (eid e, Material)]) es)"
  by (induction es arbitrary: st) (simp_all add: removeEntity_fields)

lemma dispose_invariant_removeEntity:
  assumes "dispose_invariant st" and "registry_invariant st" and "e \<in> set (entities st)"
  shows "dispose_invariant (removeEntity e st)"
proof -
  have l: "eid e \<in> set (ids st)" using assms(3) by (simp add: ids_def)
  have d: "distinct (ids st)" and b: "\<forall>i\<in>set (ids st). snd i \<le> idCounter st"
    using assms(2) by (simp_all add: registry_invariant_def)
  have s: "set (remove1 (eid e) (ids st)) = set (ids st) - {eid e}"
    using d by simp
  have n: "fst x \<noteq> eid e" if "x \<in> set (disposed st)" for x
    using assms(1) l that unfolding dispose_invariant_def by metis
  have "(eid e, Geometry) \<notin> set (disposed st)" "(eid e, Material) \<notin> set (disposed st)"
    using n [of "(eid e, Geometry)"] n [of "(eid e, Material)"] by auto
  moreover have "snd (eid e) \<le> idCounter st"
    using b l by blast
  ultimately show ?thesis
    using assms(1) unfolding dispose_invariant_def ids_removeEntity s
    by (auto simp: removeEntity_fields)
qed

lemma invariants_clear:
  assumes "registry_invariant st" and "dispose_invariant st" and "set es \<subseteq> set (entities st)"
    and "distinct (map eid es)"
  shows "registry_invariant (fold removeEntity es st) \<and> dispose_invariant (fold removeEntity es st)"
  using assms
proof (induction es arbitrary: st)
  case Nil
  then show ?case by simp
next
  case (Cons e es)
  have r: "registry_invariant (removeEntity e st)"
    using Cons.prems(1) by (rule registry_invariant_removeEntity)
  have d: "dispose_invariant (removeEntity e st)"
    using Cons.prems by (intro dispose_invariant_removeEntity) simp_all
  have "set es \<subseteq> set (entities (removeEntity e st))"
  proof
    fix x assume x: "x \<in> set es"
    then have "eid x \<noteq> eid e" using Cons.prems(4) by (metis distinct.simps(2) image_eqI list.simps(9) list.set_map)
    moreover have "x \<in> set (entities st)" using x Cons.prems(3) by auto
    moreover have "y \<in> set zs \<Longrightarrow> eid y \<noteq> i \<Longrightarrow> y \<in> set (splice_entity i zs)" for y i zs
      by (induction zs) auto
    ultimately show "x \<in> set (entities (removeEntity e st))"
      by (simp add: removeEntity_fields)
  qed
  with Cons.IH [OF r d] Cons.prems(4) show ?case by simp
qed

lemma dispose_invariant_grows:
  assumes "grows st st'" and "dispose_invariant st"
  shows "dispose_invariant st'"
proof -
  obtain new where n: "entities st' = entities st @ new"
    "\<forall>e\<in>set new. idCounter st < snd (eid e) \<and> snd (eid e) \<le> idCounter st'"
    "idCounter st \<le> idCounter st'" "disposed st' = disposed st"
    using assms(1) unfolding grows_def by blast
  have "fst x \<notin> set (ids st') \<and> snd (fst x) \<le> idCounter st'" if "x \<in> set (disposed st)" for x
  proof -
    from assms(2) that have a: "fst x \<notin> set (ids st)" "snd (fst x) \<le> idCounter st"
      unfolding dispose_invariant_def by blast+
    have "fst x \<notin> eid ` set new" using a(2) n(2) by force
    with a n(1,3) show ?thesis by (simp add: ids_def)
  qed
  with assms(2) n(4) show ?thesis by (simp add: dispose_invariant_def)
qed

lemma dispose_invariant_same:
  "dispose_invariant st \<Longrightarrow> disposed st' = disposed st \<Longrightarrow> ids st' = ids st \<Longrightarrow>
   idCounter st' = idCounter st \<Longrightarrow> dispose_invariant st'"
  by (simp add: dispose_invariant_def)


lemma dispose_invariant_push:
  assumes "dispose_invariant st" and "entities st' = entities st @ [e]"
    and "eid e = (p, idCounter st + 1)" and "idCounter st' = idCounter st + 1"
    and "disposed st' = disposed st"
  shows "dispose_invariant st'"
proof -
  have "fst x \<notin> set (ids st') \<and> snd (fst x) \<le> idCounter st'" if "x \<in> set (disposed st)" for x
  proof -
    from assms(1) that have a: "fst x \<notin> set (ids st)" "snd (fst x) \<le> idCounter st"
      unfolding dispose_invariant_def by blast+
    then have "fst x \<noteq> eid e" using assms(3) by auto
    with a assms(2,4) show ?thesis by (simp add: ids_def)
  qed
  with assms(1,5) show ?thesis by (simp add: dispose_invariant_def)
qed

lemma dispose_invariant_step:
  assumes "registry_invariant st" and "dispose_invariant st"
  shows "dispose_invariant (step ev st)"
proof (cases "is_edit ev")
  case True
  from edit_step [OF True assms(1)] show ?thesis
  proof
    assume "step ev st = st"
    then show ?thesis using assms by simp
  next
    assume "\<exists>i f. entity_edit f \<and> step ev st = refreshSceneJson (update_entity i f st)"
    then obtain i f where f: "entity_edit f"
      and s: "step ev st = refreshSceneJson (update_entity i f st)" by blast
    show ?thesis
      unfolding s using assms(2) edited_fields [OF f, of i st]
      by (simp add: dispose_invariant_def)
  qed
next
  case False
  show ?thesis
  proof (cases ev)
    case AddSphere
    show ?thesis
      unfolding AddSphere step.simps
      by (rule dispose_invariant_push [OF assms(2), of _ "default_sphere (idCounter st + 1)" "''sphere''"])
         (simp_all add: createSphereEntity_fields default_sphere_def)
  next
    case AddCube
    show ?thesis
      unfolding AddCube step.simps
      by (rule dispose_invariant_push [OF assms(2), of _ "default_cube (idCounter st + 1)" "''cube''"])
         (simp_all add: createCubeEntity_fields default_cube_def)
  next
    case AddLight
    show ?thesis
      unfolding AddLight step.simps
      by (rule dispose_invariant_push [OF assms(2), of _ "default_light (idCounter st + 1)" "''light''"])
         (simp_all add: createLightEntity_fields default_light_def)
  next
    case (ListChange i)
    then show ?thesis
      using assms(2) by (simp add: dispose_invariant_def)
  next
    case (PointerDown hit)
    from pointerdown_cases [of hit st] show ?thesis
    proof
      assume "pointerdown hit st = st"
      with PointerDown assms(2) show ?thesis by simp
    next
      assume "\<exists>i. pointerdown hit st = selectEntity i st"
      then obtain i where "pointerdown hit st = selectEntity i st" by blast
      with PointerDown assms(2) show ?thesis by (simp add: dispose_invariant_def)
    qed
  next
    case DeleteClick
    from deleteButton_click_cases [of st] show ?thesis
    proof
      assume "deleteButton_click st = st"
      then show ?thesis using DeleteClick assms by simp
    next
      assume "\<exists>e\<in>set (entities st). selectedEntity st = Some (eid e) \<and>
                deleteButton_click st = removeEntity e (selectEntity None st)"
      then obtain e where e: "e \<in> set (entities st)"
        "deleteButton_click st = removeEntity e (selectEntity None st)"
        by blast
      have r: "registry_invariant (selectEntity None st)"
        using assms(1) by (rule registry_invariant_selectEntity)
      have d: "dispose_invariant (selectEntity None st)"
        using assms(2) by (simp add: dispose_invariant_def)
      from dispose_invariant_removeEntity [OF d r, of e] e show ?thesis
        using DeleteClick by simp
    qed
  next
    case (CameraFormChange fd)
    then show ?thesis
      using assms(2) by (simp add: dispose_invariant_def ids_def)
  next
    case (ImportLoad parsed)
    show ?thesis
    proof (cases parsed)
      case None
      then show ?thesis
        using ImportLoad assms by (simp add: reader_onload_def)
    next
      case (Some jdata)
      let ?st' = "completion_state (loadSceneFromJson jdata st)"
      have s: "step ev st = ?st'"
        using ImportLoad Some
        by (simp add: reader_onload_def split: completion.splits)
      obtain cs mid where cm:
        "grows ((fold removeEntity (entities st) st)\<lparr>cameraState := cs\<rparr>) mid"
        "?st' = mid \<or> (\<exists>i. ?st' = refreshSceneJson (selectEntity i mid))"
        using loadSceneFromJson_shape [of st jdata] by blast
      have "distinct (map eid (entities st))"
        using assms(1) by (simp add: registry_invariant_def ids_def)
      with invariants_clear [OF assms, of "entities st"]
      have "dispose_invariant (fold removeEntity (entities st) st)" by simp
      then have "dispose_invariant ((fold removeEntity (entities st) st)\<lparr>cameraState := cs\<rparr>)"
        by (simp add: dispose_invariant_def ids_def)
      with cm(1) have m: "dispose_invariant mid" by (rule dispose_invariant_grows)
      from cm(2) show ?thesis
      proof
        assume "?st' = mid"
        with m s show ?thesis by simp
      next
        assume "\<exists>i. ?st' = refreshSceneJson (selectEntity i mid)"
        then obtain i where "?st' = refreshSceneJson (selectEntity i mid)" by blast
        with m s show ?thesis by (simp add: dispose_invariant_def)
      qed
    qed
  qed (use False in auto)
qed

lemma dispose_invariant_init: "dispose_invariant init_state"
  by (simp add: dispose_invariant_def init_state_def refreshSceneJson_def)

lemma invariants_run:
  "registry_invariant st \<Longrightarrow> dispose_invariant st \<Longrightarrow>
   registry_invariant (run evs st) \<and> dispose_invariant (run evs st)"
proof (induction evs arbitrary: st)
  case Nil
  then show ?case by simp
next
  case (Cons ev evs)
  have "registry_invariant (step ev st)"
    using step_invariants [OF Cons.prems(1), of ev] by simp
  moreover have "dispose_invariant (step ev st)"
    using Cons.prems by (rule dispose_invariant_step)
  ultimately show ?case
    using Cons.IH [of "step ev st"] by simp
qed

section \<open>Delete\<close>

lemma run_append: "run (xs @ ys) st = run ys (run xs st)"
  by (simp add: run_def)

text \<open>
  Claim C6. In every state that the editor reaches, \<^verbatim>\<open>removeEntity\<close> on a live entity
  removes it from the registry, calls \<^verbatim>\<open>dispose()\<close> once on its geometry and once on
  its material, takes it out of the list box, the scene and the document view, and clears
  the selection if it was selected; no resource has ever been released twice. The delete
  button is the delete that the editor offers: with an entity selected it is
  \<^verbatim>\<open>removeEntity\<close> on that entity, which is live, after the selection has been cleared.
  With nothing selected it changes nothing, and an id that names no live entity cannot be
  selected: \<^verbatim>\<open>selectEntity\<close> clears the selection, and a delete after it removes nothing
  and releases nothing. A second click right after a delete is therefore a no-op.
\<close>

theorem delete_live_entity:
  "let st = run evs init_state in
     (\<forall>e\<in>set (entities st).
        ids (removeEntity e st) = remove1 (eid e) (ids st) \<and>
        eid e \<notin> set (ids (removeEntity e st)) \<and>
        disposed (removeEntity e st) = disposed st @ [(eid e, Geometry), (eid e, Material)] \<and>
        distinct (disposed (removeEntity e st)) \<and>
        eid e \<notin> set (objectList (removeEntity e st)) \<and>
        eid e \<notin> set (scene_children (removeEntity e st)) \<and>
        sceneJson (removeEntity e st) = buildSceneJson (removeEntity e st) \<and>
        selectedEntity (removeEntity e st) =
          (if selectedEntity st = Some (eid e) then None else selectedEntity st)) \<and>
     (\<forall>e. selected_object st = Some e \<longrightarrow>
        e \<in> set (entities st) \<and>
        deleteButton_click st = removeEntity e (selectEntity None st) \<and>
        ids (deleteButton_click st) = remove1 (eid e) (ids st) \<and>
        disposed (deleteButton_click st) = disposed st @ [(eid e, Geometry), (eid e, Material)] \<and>
        selectedEntity (deleteButton_click st) = None) \<and>
     distinct (disposed st) \<and>
     (selectedEntity st = None \<longrightarrow> deleteButton_click st = st) \<and>
     (i \<notin> set (ids st) \<longrightarrow>
        deleteButton_click (selectEntity (Some i) st) = selectEntity (Some i) st \<and>
        ids (deleteButton_click (selectEntity (Some i) st)) = ids st \<and>
        disposed (deleteButton_click (selectEntity (Some i) st)) = disposed st) \<and>
     deleteButton_click (deleteButton_click st) = deleteButton_click st \<and>
     run (evs @ [DeleteClick, DeleteClick]) init_state = run (evs @ [DeleteClick]) init_state"
proof -
  let ?st = "run evs init_state"
  have inv: "registry_invariant ?st" "dispose_invariant ?st"
    using invariants_run [OF registry_invariant_init dispose_invariant_init] by simp_all
  have a: "ids (removeEntity e ?st) = remove1 (eid e) (ids ?st) \<and>
        eid e \<notin> set (ids (removeEntity e ?st)) \<and>
        disposed (removeEntity e ?st) = disposed ?st @ [(eid e, Geometry), (eid e, Material)] \<and>
        distinct (disposed (removeEntity e ?st)) \<and>
        eid e \<notin> set (objectList (removeEntity e ?st)) \<and>
        eid e \<notin> set (scene_children (removeEntity e ?st)) \<and>
        sceneJson (removeEntity e ?st) = buildSceneJson (removeEntity e ?st) \<and>
        selectedEntity (removeEntity e ?st) =
          (if selectedEntity ?st = Some (eid e) then None else selectedEntity ?st)"
    if "e \<in> set (entities ?st)" for e
  proof -
    have d: "distinct (ids ?st)" using inv(1) by (simp add: registry_invariant_def)
    have "dispose_invariant (removeEntity e ?st)"
      using inv(2) inv(1) that by (rule dispose_invariant_removeEntity)
    then have "distinct (disposed (removeEntity e ?st))"
      by (simp add: dispose_invariant_def)
    then show ?thesis
      using d by (simp add: ids_removeEntity removeEntity_fields)
  qed
  have btn: "e \<in> set (entities ?st) \<and>
        deleteButton_click ?st = removeEntity e (selectEntity None ?st) \<and>
        ids (deleteButton_click ?st) = remove1 (eid e) (ids ?st) \<and>
        disposed (deleteButton_click ?st) = disposed ?st @ [(eid e, Geometry), (eid e, Material)] \<and>
        selectedEntity (deleteButton_click ?st) = None"
    if "selected_object ?st = Some e" for e
  proof -
    from that have m: "e \<in> set (entities ?st)"
      by (auto simp: selected_object_def split: option.splits dest: find_entity_Some)
    have eq: "deleteButton_click ?st = removeEntity e (selectEntity None ?st)"
      using that by (simp add: deleteButton_click_def)
    show ?thesis
      unfolding eq using m
      by (simp add: ids_removeEntity removeEntity_fields selectedEntity_selectEntity)
  qed
  have b: "deleteButton_click ?st = ?st" if "selectedEntity ?st = None"
    using that by (simp add: deleteButton_click_def selected_object_def)
  have stale: "deleteButton_click (selectEntity (Some i) ?st) = selectEntity (Some i) ?st \<and>
        ids (deleteButton_click (selectEntity (Some i) ?st)) = ids ?st \<and>
        disposed (deleteButton_click (selectEntity (Some i) ?st)) = disposed ?st"
    if "i \<notin> set (ids ?st)"
  proof -
    have "selectedEntity (selectEntity (Some i) ?st) = None"
      using that by (simp add: selectedEntity_selectEntity)
    then have "deleteButton_click (selectEntity (Some i) ?st) = selectEntity (Some i) ?st"
      by (simp add: deleteButton_click_def selected_object_def)
    then show ?thesis by simp
  qed
  have c: "deleteButton_click (deleteButton_click ?st) = deleteButton_click ?st"
  proof (cases "selected_object ?st")
    case None
    then show ?thesis by (simp add: deleteButton_click_def)
  next
    case (Some e)
    then have "selectedEntity (deleteButton_click ?st) = None"
      by (simp add: deleteButton_click_def removeEntity_fields selectedEntity_selectEntity)
    then show ?thesis
      by (simp add: deleteButton_click_def [of "deleteButton_click ?st"] selected_object_def)
  qed
  have r: "run (evs @ [DeleteClick, DeleteClick]) init_state = run (evs @ [DeleteClick]) init_state"
    using c by (simp add: run_append)
  have "distinct (disposed ?st)" using inv(2) by (simp add: dispose_invariant_def)
  with a btn b stale c r show ?thesis unfolding Let_def by blast
qed

theorem delete_live_entity_witness:
  "default_cube 3 \<in> set (entities (run [AddSphere, AddCube] init_state)) \<and>
   disposed (removeEntity (default_cube 3) (run [AddSphere, AddCube] init_state)) =
     disposed (run [AddSphere, AddCube] init_state) @
       [(eid (default_cube 3), Geometry), (eid (default_cube 3), Material)] \<and>
   selected_object (run [AddSphere, AddCube] init_state) = Some (default_cube 3) \<and>
   ids (deleteButton_click (run [AddSphere, AddCube] init_state)) =
     remove1 (eid (default_cube 3)) (ids (run [AddSphere, AddCube] init_state)) \<and>
   ids (run [AddSphere, AddCube] init_state) = [(''sphere'', 2), (''cube'', 3)] \<and>
   disposed (deleteButton_click (run [AddSphere, AddCube] init_state)) =
     disposed (run [AddSphere, AddCube] init_state) @
       [(eid (default_cube 3), Geometry), (eid (default_cube 3), Material)] \<and>
   disposed (run [AddSphere, AddCube] init_state) = [] \<and>
   selectedEntity (deleteButton_click (run [AddSphere, AddCube] init_state)) = None \<and>
   selectedEntity (run [AddSphere, AddCube, DeleteClick] init_state) = None \<and>
   deleteButton_click (run [AddSphere, AddCube, DeleteClick] init_state) =
     run [AddSphere, AddCube, DeleteClick] init_state \<and>
   (''cube'', 3) \<notin> set (ids (run [AddSphere, AddCube, DeleteClick] init_state)) \<and>
   disposed (deleteButton_click (selectEntity (Some (''cube'', 3))
              (run [AddSphere, AddCube, DeleteClick] init_state))) =
     disposed (run [AddSphere, AddCube, DeleteClick] init_state)"
proof -
  let ?s1 = "run [AddSphere, AddCube] init_state"
  let ?s2 = "run [AddSphere, AddCube, DeleteClick] init_state"
  have m: "default_cube 3 \<in> set (entities ?s1)"
    by code_simp
  have so: "selected_object ?s1 = Some (default_cube 3)"
    by code_simp
  note t1 = delete_live_entity [of "[AddSphere, AddCube]", unfolded Let_def]
  note t2 = delete_live_entity [of "[AddSphere, AddCube, DeleteClick]" "(''cube'', 3)",
      unfolded Let_def]
  have r: "disposed (removeEntity (default_cube 3) ?s1) =
     disposed ?s1 @ [(eid (default_cube 3), Geometry), (eid (default_cube 3), Material)]"
    using t1 [THEN conjunct1, THEN bspec, OF m] by blast
  from t1 have "\<forall>e. selected_object ?s1 = Some e \<longrightarrow>
        e \<in> set (entities ?s1) \<and>
        deleteButton_click ?s1 = removeEntity e (selectEntity None ?s1) \<and>
        ids (deleteButton_click ?s1) = remove1 (eid e) (ids ?s1) \<and>
        disposed (deleteButton_click ?s1) = disposed ?s1 @ [(eid e, Geometry), (eid e, Material)] \<and>
        selectedEntity (deleteButton_click ?s1) = None"
    by blast
  from this [THEN spec, THEN mp, OF so]
  have b: "ids (deleteButton_click ?s1) = remove1 (eid (default_cube 3)) (ids ?s1)"
    "disposed (deleteButton_click ?s1) =
       disposed ?s1 @ [(eid (default_cube 3), Geometry), (eid (default_cube 3), Material)]"
    "selectedEntity (deleteButton_click ?s1) = None"
    by blast+
  have i: "ids ?s1 = [(''sphere'', 2), (''cube'', 3)]"
    by code_simp
  have e: "disposed ?s1 = []"
    by code_simp
  have n: "selectedEntity ?s2 = None"
    by code_simp
  have "selectedEntity ?s2 = None \<longrightarrow> deleteButton_click ?s2 = ?s2"
    using t2 by blast
  then have c: "deleteButton_click ?s2 = ?s2"
    using n by (rule mp)
  have st: "(''cube'', 3) \<notin> set (ids ?s2)"
    by code_simp
  have "(''cube'', 3) \<notin> set (ids ?s2) \<longrightarrow>
        deleteButton_click (selectEntity (Some (''cube'', 3)) ?s2) = selectEntity (Some (''cube'', 3)) ?s2 \<and>
        ids (deleteButton_click (selectEntity (Some (''cube'', 3)) ?s2)) = ids ?s2 \<and>
        disposed (deleteButton_click (selectEntity (Some (''cube'', 3)) ?s2)) = disposed ?s2"
    using t2 by blast
  from this [THEN mp, OF st]
  have d: "disposed (deleteButton_click (selectEntity (Some (''cube'', 3)) ?s2)) = disposed ?s2"
    by blast
  from m r so b(1) i b(2) e b(3) n c st d show ?thesis
    by (intro conjI)
qed

section \<open>Failed imports\<close>

lemma malformed_throws:
  assumes "malformed jdata"
  shows "loadSceneFromJson jdata st =
         Threw ((fold removeEntity (entities st) st)
                  \<lparr>cameraState := camera_after_failure jdata (cameraState st)\<rparr>)"
proof (cases jdata)
  case JNull
  then show ?thesis by (simp add: loadSceneFromJson_def)
next
  case (JObject d)
  with assms obtain cam where cam: "j_camera d = Some cam"
    "j_position cam = None \<or> j_look_at cam = None"
    by (cases "j_camera d") auto
  then show ?thesis
    using JObject
    by (auto simp: loadSceneFromJson_def load_camera_def Let_def split: option.splits)
qed

text \<open>
  Claim C1, as stated: when an import fails, the registry, the entity list and the camera
  state are exactly as they were before it began. \<^verbatim>\<open>loadSceneFromJson\<close> removes every
  entity before it reads the document: after the import of a camera block without
  \<^verbatim>\<open>position\<close> the alert is shown and the sphere that was live is gone; a camera block
  with a position and without \<^verbatim>\<open>look_at\<close> has overwritten the camera position when the
  alert is shown.
\<close>

theorem failed_import_clears_registry:
  "fst (reader_onload (Some (JObject camera_without_position)) (run [AddSphere] init_state)) \<and>
   ids (run [AddSphere] init_state) = [(''sphere'', 2)] \<and>
   entities (snd (reader_onload (Some (JObject camera_without_position))
                    (run [AddSphere] init_state))) = [] \<and>
   fst (reader_onload (Some (JObject camera_without_look_at)) init_state) \<and>
   cam_position (cameraState init_state) = vec 8 6 8 \<and>
   cam_position (cameraState (snd (reader_onload (Some (JObject camera_without_look_at))
                                     init_state))) = vec 1 2 3"
  by code_simp

text \<open>
  Claim C1, amended. When the text is not valid JSON the import is aborted with the alert
  and the whole state is as it was. When the parsed document is \<^verbatim>\<open>null\<close> or its camera
  block lacks \<^verbatim>\<open>position\<close> or \<^verbatim>\<open>look_at\<close>, the import is aborted with the same alert
  after the registry has been cleared: no entity is live, nothing is selected, the
  resources of every former entity have been released, the id counter is unchanged, and
  the camera state is as it was except for a position that the block did give.
\<close>

theorem failed_import_outcome:
  "reader_onload None st0 = (True, st0) \<and>
   (let st = run evs init_state; r = reader_onload (Some jdata) st in
      malformed jdata \<longrightarrow>
        fst r \<and> entities (snd r) = [] \<and> selectedEntity (snd r) = None \<and>
        idCounter (snd r) = idCounter st \<and>
        disposed (snd r) =
          disposed st @ concat (map (\<lambda>e. [(eid e, Geometry), (eid e, Material)]) (entities st)) \<and>
        cameraState (snd r) = camera_after_failure jdata (cameraState st))"
proof -
  let ?st = "run evs init_state"
  have inv: "registry_invariant ?st"
    using registry_invariant_init by (rule registry_invariant_run)
  note c = cleared [OF inv]
  have "fst (reader_onload (Some jdata) ?st) \<and>
        entities (snd (reader_onload (Some jdata) ?st)) = [] \<and>
        selectedEntity (snd (reader_onload (Some jdata) ?st)) = None \<and>
        idCounter (snd (reader_onload (Some jdata) ?st)) = idCounter ?st \<and>
        disposed (snd (reader_onload (Some jdata) ?st)) =
          disposed ?st @ concat (map (\<lambda>e. [(eid e, Geometry), (eid e, Material)]) (entities ?st)) \<and>
        cameraState (snd (reader_onload (Some jdata) ?st)) =
          camera_after_failure jdata (cameraState ?st)"
    if "malformed jdata"
    using c by (simp add: reader_onload_def malformed_throws [OF that] disposed_clear)
  then show ?thesis
    by (simp add: Let_def reader_onload_def)
qed

theorem failed_import_outcome_witness:
  "malformed (JObject camera_without_look_at) \<and>
   reader_onload None (run [AddSphere] init_state) = (True, run [AddSphere] init_state) \<and>
   fst (reader_onload (Some (JObject camera_without_look_at)) (run [AddSphere] init_state)) \<and>
   entities (snd (reader_onload (Some (JObject camera_without_look_at))
                    (run [AddSphere] init_state))) = [] \<and>
   selectedEntity (snd (reader_onload (Some (JObject camera_without_look_at))
                          (run [AddSphere] init_state))) = None"
proof -
  have m: "malformed (JObject camera_without_look_at)"
    by (simp add: camera_without_look_at_def)
  note t = failed_import_outcome [of "run [AddSphere] init_state" "[AddSphere]"
      "JObject camera_without_look_at", unfolded Let_def]
  from t have a: "reader_onload None (run [AddSphere] init_state) = (True, run [AddSphere] init_state)"
    by (rule conjunct1)
  from t [THEN conjunct2, THEN mp, OF m]
  have b: "fst (reader_onload (Some (JObject camera_without_look_at)) (run [AddSphere] init_state))"
    "entities (snd (reader_onload (Some (JObject camera_without_look_at))
                    (run [AddSphere] init_state))) = []"
    "selectedEntity (snd (reader_onload (Some (JObject camera_without_look_at))
                          (run [AddSphere] init_state))) = None"
    by blast+
  from m a b show ?thesis by (intro conjI)
qed

section \<open>The canonical records that an import makes\<close>

lemma entities_cleared: "entities (fold removeEntity (entities st) st) = []"
  using fold_splice_all [of "entities st" "[]"] by (simp add: entities_clear)

lemma load_object_data:
  "load_object obj st = Normal st' \<Longrightarrow>
   map data (entities st') = map data (entities st) @ option_list (doc_data obj)"
  by (cases obj)
     (auto simp: generateId_def addListItem_def Let_def split: option.splits prod.splits)

lemma load_object_Threw: "load_object obj st = Threw st' \<Longrightarrow> st' = st"
  by (cases obj)
     (auto simp: generateId_def addListItem_def Let_def split: option.splits prod.splits)

lemma load_objects_data:
  "load_objects os st = Normal st' \<Longrightarrow>
   map data (entities st') = map data (entities st) @ concat (map (\<lambda>obj. option_list (doc_data obj)) os)"
proof (induction os arbitrary: st)
  case Nil
  then show ?case by simp
next
  case (Cons obj os)
  from Cons.prems obtain s where s: "load_object obj st = Normal s" "load_objects os s = Normal st'"
    by (auto split: completion.splits)
  from load_object_data [OF s(1)] Cons.IH [OF s(2)] show ?case by simp
qed

lemma load_objects_data_subset:
  "set (map data (entities (completion_state (load_objects os st)))) \<subseteq>
   set (map data (entities st)) \<union> {d. \<exists>obj\<in>set os. doc_data obj = Some d}"
proof (induction os arbitrary: st)
  case Nil
  then show ?case by simp
next
  case (Cons obj os)
  show ?case
  proof (cases "load_object obj st")
    case (Threw s)
    with load_object_Threw [OF Threw] show ?thesis by auto
  next
    case (Normal s)
    have "set (option_list (doc_data obj)) \<subseteq> {d. doc_data obj = Some d}"
      by (cases "doc_data obj") auto
    with load_object_data [OF Normal]
    have "set (map data (entities s)) \<subseteq> set (map data (entities st)) \<union> {d. doc_data obj = Some d}"
      by auto
    with Cons [of s] Normal show ?thesis by auto
  qed
qed

lemma load_light_data:
  "map data (entities (load_light l st)) = map data (entities st) @ option_list (light_data l)"
  by (cases l) (simp_all add: generateId_def addListItem_def Let_def split: prod.splits)

lemma load_lights_data:
  "map data (entities (fold load_light ls st)) =
   map data (entities st) @ concat (map (\<lambda>l. option_list (light_data l)) ls)"
  by (induction ls arbitrary: st) (simp_all add: load_light_data)


lemma import_data_subset:
  "set (map data (entities (completion_state (loadSceneFromJson jdata st)))) \<subseteq>
   {d. \<exists>doc obj. jdata = JObject doc \<and>
          obj \<in> set (case j_objects doc of None \<Rightarrow> [] | Some os \<Rightarrow> os) \<and> doc_data obj = Some d} \<union>
   {d. kind_of d = Light}"
proof (cases jdata)
  case JNull
  then show ?thesis by (simp add: loadSceneFromJson_def entities_cleared)
next
  case (JObject d)
  let ?st0 = "fold removeEntity (entities st) st"
  let ?cam = "case j_camera d of None \<Rightarrow> Normal (cameraState ?st0)
              | Some cam \<Rightarrow> load_camera cam (cameraState ?st0)"
  let ?os = "case j_objects d of None \<Rightarrow> [] | Some os \<Rightarrow> os"
  let ?ls = "case j_lights d of None \<Rightarrow> [] | Some ls \<Rightarrow> ls"
  show ?thesis
  proof (cases ?cam)
    case (Threw cs)
    then show ?thesis using JObject by (simp add: loadSceneFromJson_def entities_cleared)
  next
    case (Normal cs)
    let ?b = "?st0\<lparr>cameraState := cs\<rparr>"
    have sub: "set (map data (entities (completion_state (load_objects ?os ?b)))) \<subseteq>
               {d. \<exists>obj\<in>set ?os. doc_data obj = Some d}"
      using load_objects_data_subset [of ?os ?b] by (simp add: entities_cleared)
    have into: "{d'. \<exists>obj\<in>set ?os. doc_data obj = Some d'} \<subseteq>
        {d'. \<exists>doc obj. jdata = JObject doc \<and>
          obj \<in> set (case j_objects doc of None \<Rightarrow> [] | Some os \<Rightarrow> os) \<and> doc_data obj = Some d'}"
      unfolding JObject by blast
    show ?thesis
    proof (cases "load_objects ?os ?b")
      case (Threw st2)
      have "completion_state (loadSceneFromJson jdata st) = st2"
        using JObject Normal Threw by (simp add: loadSceneFromJson_def)
      with sub Threw into show ?thesis by fastforce
    next
      case st2: (Normal st2)
      have l: "set (concat (map (\<lambda>l. option_list (light_data l)) ?ls)) \<subseteq> {d. kind_of d = Light}"
      proof
        fix x assume "x \<in> set (concat (map (\<lambda>l. option_list (light_data l)) ?ls))"
        then obtain l where "x \<in> set (option_list (light_data l))" by auto
        then show "x \<in> {d. kind_of d = Light}" by (cases l) auto
      qed
      have "\<exists>i. completion_state (loadSceneFromJson jdata st) =
                 refreshSceneJson (selectEntity i (fold load_light ?ls st2))"
        using JObject Normal st2 by (simp add: loadSceneFromJson_def Let_def) blast
      then have "entities (completion_state (loadSceneFromJson jdata st)) =
                 entities (fold load_light ?ls st2)"
        by auto
      then have "set (map data (entities (completion_state (loadSceneFromJson jdata st)))) =
            set (map data (entities st2)) \<union>
            set (concat (map (\<lambda>l. option_list (light_data l)) ?ls))"
        by (simp only: load_lights_data set_append)
      moreover have "set (map data (entities st2)) \<subseteq>
               {d. \<exists>obj\<in>set ?os. doc_data obj = Some d}"
        using sub st2 by simp
      ultimately show ?thesis using l into by blast
    qed
  qed
qed

section \<open>Colours of the encoded document\<close>

lemma channel_ok_byte: "channel_ok (Fin (rat_of_int (v mod 256) / 255))"
proof -
  have "0 \<le> v mod 256" "v mod 256 \<le> 255" by simp_all
  then have "(0::rat) \<le> of_int (v mod 256)" "(of_int (v mod 256) :: rat) \<le> of_int 255"
    by (simp_all only: of_int_0_le_iff of_int_le_iff)
  then show ?thesis by (simp add: channel_ok_def)
qed

lemma hexToColor_ok:
  "channel_ok (cr (hexToColor v))" "channel_ok (cg (hexToColor v))" "channel_ok (cb (hexToColor v))"
  by (simp_all add: hexToColor_def channel_ok_byte)

lemma data_colors_ok_edit:
  assumes "entity_edit f" and "data_colors_ok (data e)"
  shows "data_colors_ok (data (f e))"
proof -
  have "data_colors_ok (data (move_to p e))" for p
    using assms(2)
    by (cases "data e")
       (simp_all add: move_to_def updateEntityFromTransform_def data_colors_ok_def
         colorToArray_def Let_def)
  moreover have "data_colors_ok (data (radius_onChange v e))" for v
    using assms(2)
    by (cases "data e")
       (simp_all add: radius_onChange_def data_colors_ok_def colorToArray_def Let_def)
  moreover have "data_colors_ok (data (size_onChange a v e))" for a v
    using assms(2)
    by (cases "data e"; cases a)
       (simp_all add: size_onChange_def data_colors_ok_def colorToArray_def Let_def)
  moreover have "data_colors_ok (data (color_onChange hex e))" for hex
    using assms(2) hexToColor_ok [of hex]
    by (cases "data e")
       (simp_all add: color_onChange_def data_colors_ok_def colorToArray_def Let_def)
  moreover have "data_colors_ok (data (intensity_onChange c v e))" for c v
    using assms(2)
    by (cases "data e")
       (simp_all add: intensity_onChange_def data_colors_ok_def Let_def)
  moreover have "data_colors_ok (data (direction_onChange a v e))" for a v
    using assms(2)
    by (cases "data e")
       (simp_all add: direction_onChange_def data_colors_ok_def)
  ultimately show ?thesis
    using assms(1) unfolding entity_edit_def by metis
qed

lemma data_colors_ok_default:
  "data_colors_ok (data (default_sphere n))" "data_colors_ok (data (default_cube n))"
  "data_colors_ok (data (default_light n))"
  by (simp_all add: default_sphere_def default_cube_def default_light_def data_colors_ok_def
      colorToArray_def col_def channel_ok_def)

lemma data_colors_ok_light: "kind_of d = Light \<Longrightarrow> data_colors_ok d"
  by (cases d) (simp_all add: data_colors_ok_def)

lemma data_colors_ok_doc:
  assumes "list_all channel_ok (obj_colors obj)" and "doc_data obj = Some d"
  shows "data_colors_ok d"
  using assms
  by (cases obj rule: doc_data.cases)
     (auto simp: data_colors_ok_def colorToArray_def arr_rgb_def Let_def split: prod.splits)

lemma colors_step:
  assumes "registry_invariant st" and "import_in_range ev"
    and "\<forall>e\<in>set (entities st). data_colors_ok (data e)"
  shows "\<forall>e\<in>set (entities (step ev st)). data_colors_ok (data e)"
proof (cases "is_import ev")
  case False
  show ?thesis
  proof
    fix e' assume "e' \<in> set (entities (step ev st))"
    from entities_step_cases [OF assms(1) False this]
    show "data_colors_ok (data e')"
      using assms(3) data_colors_ok_edit data_colors_ok_default by blast
  qed
next
  case True
  then obtain parsed where ev: "ev = ImportLoad parsed" by (cases ev) auto
  show ?thesis
  proof (cases parsed)
    case None
    with ev assms(3) show ?thesis by (simp add: reader_onload_def)
  next
    case (Some jdata)
    have s: "step ev st = completion_state (loadSceneFromJson jdata st)"
      using ev Some by (simp add: reader_onload_def split: completion.splits)
    show ?thesis
    proof
      fix e' assume "e' \<in> set (entities (step ev st))"
      then have "data e' \<in> set (map data (entities (completion_state (loadSceneFromJson jdata st))))"
        unfolding s by simp
      with import_data_subset [of jdata st]
      have "(\<exists>doc obj. jdata = JObject doc \<and>
                obj \<in> set (case j_objects doc of None \<Rightarrow> [] | Some os \<Rightarrow> os) \<and>
                doc_data obj = Some (data e')) \<or> kind_of (data e') = Light"
        by blast
      then show "data_colors_ok (data e')"
      proof
        assume "kind_of (data e') = Light"
        then show ?thesis by (rule data_colors_ok_light)
      next
        assume "\<exists>doc obj. jdata = JObject doc \<and>
                obj \<in> set (case j_objects doc of None \<Rightarrow> [] | Some os \<Rightarrow> os) \<and>
                doc_data obj = Some (data e')"
        then obtain doc obj where d: "jdata = JObject doc"
          "obj \<in> set (case j_objects doc of None \<Rightarrow> [] | Some os \<Rightarrow> os)"
          "doc_data obj = Some (data e')" by blast
        have "colors_in_range doc"
          using assms(2) ev Some d(1) by simp
        with d(2) have "list_all channel_ok (obj_colors obj)"
          by (auto simp: colors_in_range_def doc_colors_def list_all_iff)
        then show ?thesis using d(3) by (rule data_colors_ok_doc)
      qed
    qed
  qed
qed

lemma colors_run:
  assumes "list_all import_in_range evs" and "registry_invariant st"
    and "\<forall>e\<in>set (entities st). data_colors_ok (data e)"
  shows "\<forall>e\<in>set (entities (run evs st)). data_colors_ok (data e)"
  using assms
proof (induction evs arbitrary: st)
  case Nil
  then show ?case by simp
next
  case (Cons ev evs)
  have "registry_invariant (step ev st)"
    using step_invariants [OF Cons.prems(2), of ev] by simp
  moreover have "\<forall>e\<in>set (entities (step ev st)). data_colors_ok (data e)"
    using Cons.prems by (intro colors_step) simp_all
  ultimately show ?case
    using Cons.IH [of "step ev st"] Cons.prems(1) by simp
qed

lemma clamp01_range:
  "\<not> Number_isNaN v \<Longrightarrow> num_le (Fin 0) (clamp01 v) \<and> num_le (clamp01 v) (Fin 1)"
  by (cases v) (auto simp: clamp01_def)

text \<open>
  Claim C4, as stated: every colour channel of every object record is clamped to
  \<open>[0, 1]\<close> before it is written to the scene document. \<^verbatim>\<open>colorToArray\<close> writes the
  stored channels as they are; \<^verbatim>\<open>clamp01\<close> is used by \<^verbatim>\<open>colorToHex\<close> only, for the
  string of the colour field. After the import of a sphere with the colour
  \<open>[2, -1, 0.5]\<close> the encoded document carries \<open>[2, -1, 0.5]\<close>.
\<close>

theorem imported_color_not_clamped:
  "doc_colors (buildSceneJson (run [ImportLoad (Some (JObject overbright_sphere))] init_state)) =
     [Fin 2, Fin (- 1), Fin 0.5] \<and>
   \<not> channel_ok (Fin 2) \<and> \<not> channel_ok (Fin (- 1)) \<and>
   \<not> colors_in_range (buildSceneJson (run [ImportLoad (Some (JObject overbright_sphere))] init_state))"
  by code_simp

text \<open>
  Claim C4, amended. Encoding writes the stored colour channels unchanged. Every colour
  channel of the encoded document lies within \<open>[0, 1]\<close> in every state reached by events
  whose imported documents have their colours within \<open>[0, 1]\<close>: the colours given by
  the create operations and by the colour field are in range. \<^verbatim>\<open>clamp01\<close> brings every
  number that is not NaN into \<open>[0, 1]\<close>, where \<^verbatim>\<open>colorToHex\<close> applies it.
\<close>

theorem encoded_colors_in_range:
  "(list_all import_in_range evs \<longrightarrow> colors_in_range (buildSceneJson (run evs init_state))) \<and>
   colorToArray color = (cr color, cg color, cb color) \<and>
   (\<not> Number_isNaN v \<longrightarrow> channel_ok (clamp01 v))"
proof -
  have "colors_in_range (buildSceneJson (run evs init_state))" if "list_all import_in_range evs"
  proof -
    have "\<forall>e\<in>set (entities (run evs init_state)). data_colors_ok (data e)"
      using that registry_invariant_init
      by (rule colors_run) (simp add: init_state_def refreshSceneJson_def)
    then show ?thesis
      by (auto simp: colors_in_range_def doc_colors_def buildSceneJson_def data_colors_ok_def
          list_all_iff Let_def)
  qed
  then show ?thesis
    using clamp01_range [of v] by (auto simp: colorToArray_def channel_ok_def)
qed

theorem encoded_colors_in_range_witness:
  "list_all import_in_range [ImportLoad (Some (JObject scenario_B)), AddSphere, ColorField 0xff8000] \<and>
   colors_in_range (buildSceneJson
      (run [ImportLoad (Some (JObject scenario_B)), AddSphere, ColorField 0xff8000] init_state)) \<and>
   \<not> Number_isNaN (Fin 2) \<and> channel_ok (clamp01 (Fin 2))"
proof -
  have a: "list_all import_in_range
             [ImportLoad (Some (JObject scenario_B)), AddSphere, ColorField 0xff8000]"
    by code_simp
  note t = encoded_colors_in_range
      [of "[ImportLoad (Some (JObject scenario_B)), AddSphere, ColorField 0xff8000]" _ "Fin 2"]
  from t [THEN conjunct1, THEN mp, OF a]
  have b: "colors_in_range (buildSceneJson
      (run [ImportLoad (Some (JObject scenario_B)), AddSphere, ColorField 0xff8000] init_state))" .
  have n: "\<not> Number_isNaN (Fin 2)" by simp
  from t [THEN conjunct2, THEN conjunct2, THEN mp, OF n]
  have c: "channel_ok (clamp01 (Fin 2))" .
  from a b n c show ?thesis by (intro conjI)
qed

section \<open>The round trip of a document\<close>

lemma corner_arith:
  "js_sub (Fin ((a + b) / 2)) (js_div (js_sub (Fin b) (Fin a)) (Fin 2)) = Fin a"
  "js_add (Fin ((a + b) / 2)) (js_div (js_sub (Fin b) (Fin a)) (Fin 2)) = Fin b"
  by (simp_all add: js_sub_def field_simps)

lemma finite3_cases:
  assumes "finite3 a"
  obtains a0 a1 a2 where "a = Some (Fin a0, Fin a1, Fin a2)"
proof -
  from assms obtain x y z where a: "a = Some (x, y, z)"
    by (cases a) auto
  with assms obtain a0 a1 a2 where "x = Fin a0" "y = Fin a1" "z = Fin a2"
    by (cases x; cases y; cases z) auto
  with a that show thesis by blast
qed

lemma complete_obj_data:
  assumes "complete_obj obj"
  shows "\<exists>dd. doc_data obj = Some dd \<and> objects_of dd = [obj] \<and> lights_of dd = []"
proof (cases obj)
  case (SphereDoc c r k)
  with assms have "finite3 c" "finite3 k" by simp_all
  then show ?thesis
    using SphereDoc
    by (auto elim!: finite3_cases simp: arr_vec_def arr_rgb_def toArray_def colorToArray_def)
next
  case (CubeDoc mn mx k)
  with assms have "finite3 mn" "finite3 mx" "finite3 k" by simp_all
  then show ?thesis
    using CubeDoc
    by (auto elim!: finite3_cases simp: arr_rgb_def colorToArray_def corner_arith Let_def)
next
  case (OtherObj t)
  with assms show ?thesis by simp
qed

lemma complete_light_data:
  assumes "complete_light l"
  shows "\<exists>dd. light_data l = Some dd \<and> lights_of dd = [l] \<and> objects_of dd = []"
proof (cases l)
  case (PointDoc p i d)
  with assms have "finite3 p" "finite3 i" "finite3 d" by simp_all
  then show ?thesis
    using PointDoc
    by (auto elim!: finite3_cases simp: arr_vec_def arr_rgb_def toArray_def)
next
  case (OtherLight t)
  with assms show ?thesis by simp
qed

lemma complete_objs_encode:
  "list_all complete_obj os \<Longrightarrow>
   concat (map objects_of (concat (map (\<lambda>obj. option_list (doc_data obj)) os))) = os \<and>
   concat (map lights_of (concat (map (\<lambda>obj. option_list (doc_data obj)) os))) = []"
proof (induction os)
  case Nil
  then show ?case by simp
next
  case (Cons obj os)
  then obtain dd where "doc_data obj = Some dd" "objects_of dd = [obj]" "lights_of dd = []"
    using complete_obj_data [of obj] by auto
  with Cons show ?case by simp
qed

lemma complete_lights_encode:
  "list_all complete_light ls \<Longrightarrow>
   concat (map lights_of (concat (map (\<lambda>l. option_list (light_data l)) ls))) = ls \<and>
   concat (map objects_of (concat (map (\<lambda>l. option_list (light_data l)) ls))) = []"
proof (induction ls)
  case Nil
  then show ?case by simp
next
  case (Cons l ls)
  then obtain dd where "light_data l = Some dd" "lights_of dd = [l]" "objects_of dd = []"
    using complete_light_data [of l] by auto
  with Cons show ?case by simp
qed

lemma complete_obj_loads:
  "complete_obj obj \<Longrightarrow> \<exists>st'. load_object obj st = Normal st' \<and> cameraState st' = cameraState st"
  by (cases obj)
     (auto elim!: finite3_cases simp: generateId_def addListItem_def Let_def split: prod.splits)

lemma complete_objs_load:
  "list_all complete_obj os \<Longrightarrow>
   \<exists>st'. load_objects os st = Normal st' \<and> cameraState st' = cameraState st"
proof (induction os arbitrary: st)
  case Nil
  then show ?case by simp
next
  case (Cons obj os)
  then obtain s where s: "load_object obj st = Normal s" "cameraState s = cameraState st"
    using complete_obj_loads [of obj st] by auto
  from Cons obtain st' where "load_objects os s = Normal st'" "cameraState st' = cameraState s"
    by fastforce
  with s show ?case by simp
qed

lemma finite1_cases:
  assumes "finite1 a"
  obtains q where "a = Some (Fin q)"
proof -
  from assms obtain x where "a = Some x" by (cases a) auto
  with assms that show thesis by (cases x) auto
qed

lemma complete_camera_loads:
  assumes "complete_camera cam"
    and "j_fov cam \<noteq> Some (Fin 0)" "j_width cam \<noteq> Some (Fin 0)" "j_height cam \<noteq> Some (Fin 0)"
  shows "\<exists>cs'. load_camera cam cs = Normal cs' \<and>
      Some (vx (cam_position cs'), vy (cam_position cs'), vz (cam_position cs')) = j_position cam \<and>
      Some (vx (cam_lookAt cs'), vy (cam_lookAt cs'), vz (cam_lookAt cs')) = j_look_at cam \<and>
      Some (vx (cam_up cs'), vy (cam_up cs'), vz (cam_up cs')) = j_up cam \<and>
      Some (cam_fov cs') = j_fov cam \<and> Some (cam_width cs') = j_width cam \<and>
      Some (cam_height cs') = j_height cam"
proof -
  from assms(1) have f: "finite3 (j_position cam)" "finite3 (j_look_at cam)" "finite3 (j_up cam)"
    "finite1 (j_fov cam)" "finite1 (j_width cam)" "finite1 (j_height cam)"
    by (simp_all add: complete_camera_def)
  from f(1) obtain p0 p1 p2 where p: "j_position cam = Some (Fin p0, Fin p1, Fin p2)"
    by (rule finite3_cases)
  from f(2) obtain l0 l1 l2 where l: "j_look_at cam = Some (Fin l0, Fin l1, Fin l2)"
    by (rule finite3_cases)
  from f(3) obtain u0 u1 u2 where u: "j_up cam = Some (Fin u0, Fin u1, Fin u2)"
    by (rule finite3_cases)
  from f(4) obtain v where v: "j_fov cam = Some (Fin v)" by (rule finite1_cases)
  from f(5) obtain w where w: "j_width cam = Some (Fin w)" by (rule finite1_cases)
  from f(6) obtain h where h: "j_height cam = Some (Fin h)" by (rule finite1_cases)
  from assms(2-4) v w h have nz: "v \<noteq> 0" "w \<noteq> 0" "h \<noteq> 0" by simp_all
  show ?thesis
    by (simp add: load_camera_def p l u v w h nz arr_vec_def Let_def)
qed




section \<open>The colour of a created entity\<close>

text \<open>
  Claim C2: after every operation, each numeric field of the exported record of a live
  entity equals, within \<open>1e-6\<close>, the value read off its visual node. Add Cube gives
  the material the colour \<^verbatim>\<open>0xffc164\<close>, whose green byte is \<open>193 / 255\<close>, and the
  canonical record the colour \<open>(1.0, 0.761, 0.392)\<close>: the green channels differ by more
  than \<open>0.004\<close>, the position and the corners agree. The created sphere differs in
  its red channel, \<open>0.533\<close> against \<open>136 / 255\<close>.
\<close>

theorem created_cube_color_differs:
  "map data (entities (run [AddCube] init_state)) =
     [CubeData (vec 0 (3 / 4) 0) (vec (3 / 2) (3 / 2) (3 / 2)) (col 1 (761 / 1000) (392 / 1000))] \<and>
   map (\<lambda>e. material (mesh e)) (entities (run [AddCube] init_state)) =
     [Some (col 1 (193 / 255) (100 / 255))] \<and>
   concat (map (\<lambda>e. objects_of (data e)) (entities (run [AddCube] init_state))) =
     [CubeDoc (Some (Fin (- 3 / 4), Fin 0, Fin (- 3 / 4))) (Some (Fin (3 / 4), Fin (3 / 2), Fin (3 / 4)))
        (Some (Fin 1, Fin (761 / 1000), Fin (392 / 1000)))] \<and>
   concat (map visual_objects_of (entities (run [AddCube] init_state))) =
     [CubeDoc (Some (Fin (- 3 / 4), Fin 0, Fin (- 3 / 4))) (Some (Fin (3 / 4), Fin (3 / 2), Fin (3 / 4)))
        (Some (Fin 1, Fin (193 / 255), Fin (100 / 255)))] \<and>
   \<not> close (Fin (761 / 1000)) (Fin (193 / 255)) \<and>
   \<not> list_all matches_visual (entities (run [AddCube] init_state)) \<and>
   \<not> list_all matches_visual (entities (run [AddSphere] init_state))"
  by code_simp

end
